theory Spec2Isabelle
  imports Main "HOL-Library.AList" "HOL-Library.Multiset" "HOL-Library.Sublist"
begin

section \<open>Errors, events and the process environment\<close>

text \<open>
  A Go \<open>error\<close> value. \<open>New msg\<close> is an error whose message is \<open>msg\<close>
  (\<open>errors.New\<close>, or \<open>fmt.Errorf\<close> without \<open>%w\<close>); \<open>Wrap format err\<close> is
  \<open>fmt.Errorf(format + "%w", err)\<close>. \<open>Error\<close> is the method \<open>Error()\<close>.
  A nil error is \<open>None\<close> of \<open>error option\<close>.
\<close>

datatype error = New string | Wrap string error

fun Error :: "error \<Rightarrow> string" where
  "Error (New msg) = msg"
| "Error (Wrap format err) = format @ Error err"

text \<open>
  \<open>ConfigPlugin\<close>: a plugin declaration. The struct is declared outside \<open>config.go\<close>;
  the source uses its field \<open>Name\<close> (\<open>ConfigPlugin{Name: name}\<close>) and the document
  format gives it an opaque \<open>config\<close> mapping.
\<close>

record ConfigPlugin =
  Name :: string
  PluginConfig :: "(string \<times> string) list"

text \<open>
  Calls to collaborators are recorded, oldest first, so that the order of effects can be
  stated: reads of a document, template evaluation, structural decoding, the load of the
  cloud client configuration, each plugin's \<open>Setup\<close>, and lines written by \<open>Log\<close>.
\<close>

datatype event =
    CallReadWithEnv string
  | CallReadWithEnvBytes string
  | CallEvaluateFile string
  | CallUnmarshalYAML string
  | CallUnmarshalJSON string
  | CallLoadDefaultConfig
  | CallSetup ConfigPlugin
  | LogLine string

datatype LoadOption = WithRegion string | CustomOption string

type_synonym environ = "string \<rightharpoonup> string"

text \<open>
  The process-wide state the code touches: the environment table, the package-level
  variable \<open>awsv2ConfigLoadOptionsFunc\<close>, and the record of collaborator calls.
\<close>

record world =
  environ :: environ
  awsv2ConfigLoadOptionsFunc :: "LoadOption list"
  trace :: "event list"

text \<open>
  The environment functions of package \<open>os\<close> as they are on Unix (the release workflow
  of the repository builds on Linux), where they are those of package \<open>syscall\<close>.
  \<open>LookupEnv\<close> and \<open>Getenv\<close> find nothing under the empty name. \<open>Setenv\<close>
  returns \<open>EINVAL\<close>, wrapped with the name of the call, and leaves the table as it is
  for an empty name, a name that holds \<open>=\<close> or a NUL byte, and a value that holds a NUL
  byte. \<open>Unsetenv\<close> removes the name and returns nil. A string is a list of bytes.
\<close>

definition EINVAL :: error where
  "EINVAL = New ''invalid argument''"

definition LookupEnv :: "string \<Rightarrow> world \<Rightarrow> string option" where
  "LookupEnv key w = (if length key = 0 then None else environ w key)"

definition Getenv :: "string \<Rightarrow> world \<Rightarrow> string" where
  "Getenv key w = (case LookupEnv key w of None \<Rightarrow> [] | Some v \<Rightarrow> v)"

definition Setenv :: "string \<Rightarrow> string \<Rightarrow> world \<Rightarrow> error option \<times> world" where
  "Setenv key value w =
     (if length key = 0 then (Some (Wrap ''setenv: '' EINVAL), w)
      else if CHR ''='' \<in> set key \<or> CHR 0x00 \<in> set key then (Some (Wrap ''setenv: '' EINVAL), w)
      else if CHR 0x00 \<in> set value then (Some (Wrap ''setenv: '' EINVAL), w)
      else (None, w\<lparr>environ := (environ w)(key \<mapsto> value)\<rparr>))"

definition Unsetenv :: "string \<Rightarrow> world \<Rightarrow> error option \<times> world" where
  "Unsetenv key w = (None, w\<lparr>environ := (environ w)(key := None)\<rparr>)"

definition emit :: "event \<Rightarrow> world \<Rightarrow> world" where
  "emit e w = w\<lparr>trace := trace w @ [e]\<rparr>"

definition Log :: "string \<Rightarrow> world \<Rightarrow> world" where
  "Log msg w = emit (LogLine msg) w"

text \<open>
  A call of a collaborator \<open>g\<close>: it is given the environment table, returns its result
  and the table as it leaves it, and the call is recorded.
\<close>

definition invoke :: "event \<Rightarrow> (environ \<Rightarrow> 'a \<times> environ) \<Rightarrow> world \<Rightarrow> 'a \<times> world" where
  "invoke ev g w = (case g (environ w) of (r, e) \<Rightarrow> (r, emit ev (w\<lparr>environ := e\<rparr>)))"

section \<open>The scoped environment overlay\<close>

text \<open>
  \<open>withExtraEnvSet\<close> (config.go, lines 52-77). A Go map is given as the list of its
  entries in the order the \<open>range\<close> loop visits them, so its keys are distinct;
  \<open>None\<close> is the nil map. \<open>oldValues\<close> maps a key to \<open>Some v\<close> (the previous
  value) or \<open>None\<close> (the nil interface: \<open>LookupEnv\<close> did not find the key); the
  assignment \<open>oldValues[k] = ...\<close> is \<open>AList.update\<close>. The deferred loop ranges over
  \<open>oldValues\<close> in an order of the runtime's choosing, \<open>order oldValues\<close>.
  The source drops what \<open>os.Setenv\<close> and \<open>os.Unsetenv\<close> return, here \<open>snd\<close>.
  The deferred function runs on every exit of \<open>f\<close>, so \<open>f\<close> returns a result of
  any type \<open>'r\<close> (bytes and error, or a panic in flight) together with the world it
  leaves behind.
\<close>

fun saveAndSet ::
  "(string \<times> string) list \<Rightarrow> (string \<times> string option) list \<Rightarrow> world
    \<Rightarrow> (string \<times> string option) list \<times> world" where
  "saveAndSet [] oldValues w = (oldValues, w)"
| "saveAndSet ((k, v) # kvs) oldValues w =
     saveAndSet kvs (AList.update k (LookupEnv k w) oldValues) (snd (Setenv k v w))"

fun restoreEnv :: "(string \<times> string option) list \<Rightarrow> world \<Rightarrow> world" where
  "restoreEnv [] w = w"
| "restoreEnv ((k, None) # kvs) w = restoreEnv kvs (snd (Unsetenv k w))"
| "restoreEnv ((k, Some v) # kvs) w = restoreEnv kvs (snd (Setenv k v w))"

definition withExtraEnvSet ::
  "((string \<times> string option) list \<Rightarrow> (string \<times> string option) list)
    \<Rightarrow> (string \<times> string) list option \<Rightarrow> (world \<Rightarrow> 'r \<times> world) \<Rightarrow> world \<Rightarrow> 'r \<times> world" where
  "withExtraEnvSet order extraEnv f w =
     (case extraEnv of
        None \<Rightarrow> f w
      | Some kvs \<Rightarrow>
          (case saveAndSet kvs [] w of
             (oldValues, w1) \<Rightarrow>
               (case f w1 of
                  (r, w2) \<Rightarrow> (r, restoreEnv (order oldValues) w2))))"

section \<open>The tag filter\<close>

text \<open>
  \<open>lo.Filter\<close> and \<open>lo.Contains\<close> (github.com/samber/lo) are loops over a slice:
  \<open>Filter\<close> appends to \<open>result\<close> every item the predicate accepts, passing the
  item's index; \<open>Contains\<close> returns at the first equal element.
  \<open>aws.ToString\<close> reads a \<open>*string\<close>, the nil pointer as the empty string.
\<close>

fun lo_Filter_loop :: "'a list \<Rightarrow> ('a \<Rightarrow> nat \<Rightarrow> bool) \<Rightarrow> nat \<Rightarrow> 'a list \<Rightarrow> 'a list" where
  "lo_Filter_loop [] predicate i result = result"
| "lo_Filter_loop (item # collection) predicate i result =
     lo_Filter_loop collection predicate (Suc i)
       (if predicate item i then result @ [item] else result)"

definition lo_Filter :: "'a list \<Rightarrow> ('a \<Rightarrow> nat \<Rightarrow> bool) \<Rightarrow> 'a list" where
  "lo_Filter collection predicate = lo_Filter_loop collection predicate 0 []"

fun lo_Contains :: "'a list \<Rightarrow> 'a \<Rightarrow> bool" where
  "lo_Contains [] element = False"
| "lo_Contains (x # collection) element =
     (if x = element then True else lo_Contains collection element)"

definition aws_ToString :: "string option \<Rightarrow> string" where
  "aws_ToString p = (case p of None \<Rightarrow> [] | Some s \<Rightarrow> s)"

record Tag =
  Key :: "string option"
  Value :: "string option"

record ConfigIgnore =
  Tags :: "string list"

text \<open>\<open>filterTags\<close> (lines 285-292); the receiver \<open>i\<close> may be nil.\<close>

definition filterTags :: "ConfigIgnore option \<Rightarrow> Tag list \<Rightarrow> Tag list" where
  "filterTags i tags =
     (case i of
        None \<Rightarrow> tags
      | Some r \<Rightarrow>
          if length (Tags r) = 0 then tags
          else lo_Filter tags (\<lambda>tag _. \<not> lo_Contains (Tags r) (aws_ToString (Key tag))))"

text \<open>
  The interface \<open>hasTags\<close>: an entity that stores a tag list, read by \<open>GetTags\<close>
  and replaced by \<open>SetTags\<close>; its other fields are the record's extension.
  \<open>Apply\<close> (lines 294-297) returns the entity it updated and a nil error.
\<close>

record hasTags =
  tagList :: "Tag list"

definition GetTags :: "'a hasTags_scheme \<Rightarrow> Tag list" where
  "GetTags v = tagList v"

definition SetTags :: "Tag list \<Rightarrow> 'a hasTags_scheme \<Rightarrow> 'a hasTags_scheme" where
  "SetTags tags v = v\<lparr>tagList := tags\<rparr>"

definition Apply :: "ConfigIgnore option \<Rightarrow> 'a hasTags_scheme \<Rightarrow> 'a hasTags_scheme \<times> error option" where
  "Apply i v = (SetTags (filterTags i (GetTags v)) v, None)"

section \<open>Paths\<close>

text \<open>
  Go's \<open>path/filepath\<close> on Unix, where the separator is \<open>/\<close> and there is no
  volume name. \<open>Clean\<close> is the library's loop: \<open>out\<close> is the buffer written so
  far (its length is the write index), \<open>dotdot\<close> the index below which \<open>..\<close> may
  not backtrack, and the remaining input is the first argument after \<open>rooted\<close>.
\<close>

definition IsPathSeparator :: "char \<Rightarrow> bool" where
  "IsPathSeparator c = (c = CHR ''/'')"

definition filepath_IsAbs :: "string \<Rightarrow> bool" where
  "filepath_IsAbs p = (case p of [] \<Rightarrow> False | c # _ \<Rightarrow> c = CHR ''/'')"

fun backtrack :: "string \<Rightarrow> nat \<Rightarrow> nat \<Rightarrow> nat" where
  "backtrack out dotdot n =
     (if dotdot < n \<and> \<not> IsPathSeparator (out ! n) then backtrack out dotdot (n - 1) else n)"

declare backtrack.simps [simp del]

text \<open>
  One turn of the loop of \<open>Clean\<close>, at the byte \<open>c\<close> with \<open>rest\<close> after it:
  the input left, the buffer and \<open>dotdot\<close> after the turn. The four cases are those
  of the library's switch: an empty element, a \<open>.\<close> element, a \<open>..\<close> element, a
  real element.
\<close>

definition cleanStep :: "bool \<Rightarrow> char \<Rightarrow> string \<Rightarrow> string \<Rightarrow> nat \<Rightarrow> string \<times> string \<times> nat" where
  "cleanStep rooted c rest out dotdot =
     (if IsPathSeparator c then (rest, out, dotdot)
      else if c = CHR ''.'' \<and> (rest = [] \<or> IsPathSeparator (hd rest)) then (rest, out, dotdot)
      else if c = CHR ''.'' \<and> hd rest = CHR ''.''
              \<and> (tl rest = [] \<or> IsPathSeparator (hd (tl rest))) then
        (if dotdot < length out then
           (tl rest, take (backtrack out dotdot (length out - 1)) out, dotdot)
         else if \<not> rooted then
           (tl rest, (if 0 < length out then out @ ''/'' else out) @ ''..'',
            length ((if 0 < length out then out @ ''/'' else out) @ ''..''))
         else (tl rest, out, dotdot))
      else
        (dropWhile (\<lambda>x. \<not> IsPathSeparator x) rest,
         (if (rooted \<and> length out \<noteq> 1) \<or> (\<not> rooted \<and> length out \<noteq> 0) then out @ ''/'' else out)
           @ c # takeWhile (\<lambda>x. \<not> IsPathSeparator x) rest,
         dotdot))"

lemma cleanStep_shorter:
  "length (fst (cleanStep rooted c rest out dotdot)) \<le> length rest"
  unfolding cleanStep_def by (simp add: length_dropWhile_le)

function cleanLoop :: "bool \<Rightarrow> string \<Rightarrow> string \<Rightarrow> nat \<Rightarrow> string" where
  "cleanLoop rooted [] out dotdot = out"
| "cleanLoop rooted (c # rest) out dotdot =
     (case cleanStep rooted c rest out dotdot of
        (rest', out', dotdot') \<Rightarrow> cleanLoop rooted rest' out' dotdot')"
  by pat_completeness auto
termination
  by (relation "measure (\<lambda>(rooted, p, out, dotdot). length p)")
    (simp_all add: case_prod_beta le_imp_less_Suc cleanStep_shorter)

definition Clean :: "string \<Rightarrow> string" where
  "Clean p =
     (if p = [] then ''.''
      else
        (let out = (if IsPathSeparator (hd p) then cleanLoop True (tl p) ''/'' 1
                    else cleanLoop False p [] 0)
         in if out = [] then ''.'' else out))"

fun strings_Join :: "string list \<Rightarrow> string \<Rightarrow> string" where
  "strings_Join [] sep = []"
| "strings_Join [e] sep = e"
| "strings_Join (e # es) sep = e @ sep @ strings_Join es sep"

fun filepath_Join :: "string list \<Rightarrow> string" where
  "filepath_Join [] = []"
| "filepath_Join (e # elems) =
     (if e \<noteq> [] then Clean (strings_Join (e # elems) ''/'') else filepath_Join elems)"

text \<open>\<open>Ext\<close> scans back from the end, given here the reversed path.\<close>

fun extLoop :: "string \<Rightarrow> string \<Rightarrow> string" where
  "extLoop [] seen = []"
| "extLoop (c # front) seen =
     (if IsPathSeparator c then []
      else if c = CHR ''.'' then c # seen
      else extLoop front (c # seen))"

definition filepath_Ext :: "string \<Rightarrow> string" where
  "filepath_Ext p = extLoop (rev p) []"

definition filepath_Dir :: "string \<Rightarrow> string" where
  "filepath_Dir p = Clean (rev (dropWhile (\<lambda>x. \<not> IsPathSeparator x) (rev p)))"

section \<open>The configuration\<close>

definition DefaultClusterName :: string where
  "DefaultClusterName = ''default''"

text \<open>A \<open>time.Duration\<close> counts nanoseconds.\<close>

type_synonym Duration = int

definition time_Minute :: Duration where
  "time_Minute = 60 * 1000000000"

definition DefaultTimeout :: Duration where
  "DefaultTimeout = 10 * time_Minute"

text \<open>
  Modelled from the spec: the constants \<open>ymlExt\<close>, \<open>yamlExt\<close>, \<open>jsonExt\<close> and
  \<open>jsonnetExt\<close> are declared outside \<open>config.go\<close>; the spec gives the extensions
  \<open>.yml\<close>, \<open>.yaml\<close>, \<open>.json\<close> and \<open>.jsonnet\<close>.
\<close>

definition ymlExt :: string where "ymlExt = ''.yml''"
definition yamlExt :: string where "yamlExt = ''.yaml''"
definition jsonExt :: string where "jsonExt = ''.json''"
definition jsonnetExt :: string where "jsonnetExt = ''.jsonnet''"

type_synonym FuncMap = "string list"
type_synonym NativeFunction = string

record ConfigCodeDeploy =
  ApplicationName :: string
  DeploymentGroupName :: string

record aws_Config =
  ConfigRegion :: string
  Credentials :: "string option"

text \<open>
  \<open>Config\<close> (lines 92-113). \<open>'cs\<close> is \<open>goVersion.Constraints\<close>, a slice whose
  nil value is \<open>None\<close>; pointers are options; \<open>Env\<close> is a map that may be nil.
\<close>

record 'cs Config =
  RequiredVersion :: string
  Region :: string
  Cluster :: string
  Service :: string
  ServiceDefinitionPath :: string
  TaskDefinitionPath :: string
  Plugins :: "ConfigPlugin list"
  AppSpec :: "string option"
  FilterCommand :: string
  Timeout :: "Duration option"
  CodeDeploy :: "ConfigCodeDeploy option"
  Ignore :: "ConfigIgnore option"
  Env :: "(string \<times> string) list option"
  path :: string
  templateFuncs :: "FuncMap list"
  jsonnetNativeFuncs :: "NativeFunction list"
  dir :: string
  versionConstraints :: "'cs option"
  awsv2Config :: aws_Config

text \<open>The zero value \<open>Config{}\<close>.\<close>

definition zeroConfig :: "'cs Config" where
  "zeroConfig =
     \<lparr>RequiredVersion = [], Region = [], Cluster = [], Service = [],
      ServiceDefinitionPath = [], TaskDefinitionPath = [], Plugins = [], AppSpec = None,
      FilterCommand = [], Timeout = None, CodeDeploy = None, Ignore = None, Env = None,
      path = [], templateFuncs = [], jsonnetNativeFuncs = [], dir = [],
      versionConstraints = None, awsv2Config = \<lparr>ConfigRegion = [], Credentials = None\<rparr>\<rparr>"

text \<open>\<open>configLoader\<close>: the template functions of the embedded loader and the state of the jsonnet VM.\<close>

record configLoader =
  loaderFuncs :: "FuncMap list"
  vmExtVars :: "(string \<times> string) list"
  vmExtCode :: "(string \<times> string) list"
  vmNativeFuncs :: "NativeFunction list"

text \<open>
  What \<open>config.go\<close> calls and does not define. Libraries: the reads of
  \<open>goConfig.Loader\<close>, the evaluation of the jsonnet VM, \<open>goVersion\<close>
  (\<open>NewConstraint\<close>, \<open>NewVersion\<close>, \<open>Check\<close> and \<open>String\<close> of a
  constraint set; \<open>'v\<close> is a parsed version), \<open>awsConfig.LoadDefaultConfig\<close>, and
  the order in which the runtime ranges over a map. Of this package: \<open>unmarshalYAML\<close>
  and \<open>unmarshalJSON\<close>, which fill the \<open>Config\<close> they are given from the bytes,
  \<open>defaultPluginNames\<close>, and \<open>ConfigPlugin.Setup\<close>, which receives the \<open>Config\<close>
  by pointer and may rewrite it. The reads, the evaluation, the load of the client
  configuration and \<open>Setup\<close> run code that has the process environment at hand: each
  is given the table and returns it as it leaves it.
\<close>

record ('cs, 'v) collaborators =
  mapRange :: "(string \<times> string option) list \<Rightarrow> (string \<times> string option) list"
  LoaderReadWithEnv :: "configLoader \<Rightarrow> string \<Rightarrow> environ \<Rightarrow> (error + string) \<times> environ"
  LoaderReadWithEnvBytes :: "configLoader \<Rightarrow> string \<Rightarrow> environ \<Rightarrow> (error + string) \<times> environ"
  EvaluateFile :: "configLoader \<Rightarrow> string \<Rightarrow> environ \<Rightarrow> (error + string) \<times> environ"
  unmarshalYAML :: "string \<Rightarrow> 'cs Config \<Rightarrow> string \<Rightarrow> error option \<times> 'cs Config"
  unmarshalJSON :: "string \<Rightarrow> 'cs Config \<Rightarrow> string \<Rightarrow> error option \<times> 'cs Config"
  NewConstraint :: "string \<Rightarrow> error + 'cs"
  NewVersion :: "string \<Rightarrow> error + 'v"
  Check :: "'cs \<Rightarrow> 'v \<Rightarrow> bool"
  ConstraintsString :: "'cs \<Rightarrow> string"
  LoadDefaultConfig :: "LoadOption list \<Rightarrow> environ \<Rightarrow> (aws_Config \<times> error option) \<times> environ"
  defaultPluginNames :: "string list"
  Setup :: "ConfigPlugin \<Rightarrow> 'cs Config \<Rightarrow> environ \<Rightarrow> (error option \<times> 'cs Config) \<times> environ"

section \<open>The document reader\<close>

text \<open>\<open>ReadWithEnv\<close> and \<open>ReadWithEnvBytes\<close> (lines 79-89).\<close>

definition ReadWithEnv ::
  "('cs, 'v) collaborators \<Rightarrow> configLoader \<Rightarrow> string \<Rightarrow> (string \<times> string) list option
    \<Rightarrow> world \<Rightarrow> (error + string) \<times> world" where
  "ReadWithEnv d l configPath extraEnv w =
     withExtraEnvSet (mapRange d) extraEnv
       (invoke (CallReadWithEnv configPath) (LoaderReadWithEnv d l configPath)) w"

definition ReadWithEnvBytes ::
  "('cs, 'v) collaborators \<Rightarrow> configLoader \<Rightarrow> string \<Rightarrow> (string \<times> string) list option
    \<Rightarrow> world \<Rightarrow> (error + string) \<times> world" where
  "ReadWithEnvBytes d l b extraEnv w =
     withExtraEnvSet (mapRange d) extraEnv
       (invoke (CallReadWithEnvBytes b) (LoaderReadWithEnvBytes d l b)) w"

section \<open>The plugin pipeline\<close>

text \<open>
  \<open>setupPlugins\<close> (lines 236-248): the list is built first, one \<open>ConfigPlugin\<close> with
  only a name for each default name, then the declared plugins; the loop calls
  \<open>Setup\<close> on each in turn with the \<open>Config\<close> as the plugins before it left it, and
  returns the first error as it is.
\<close>

fun setupLoop ::
  "('cs, 'v) collaborators \<Rightarrow> ConfigPlugin list \<Rightarrow> 'cs Config \<Rightarrow> world
    \<Rightarrow> error option \<times> 'cs Config \<times> world" where
  "setupLoop d [] c w = (None, c, w)"
| "setupLoop d (p # plugins) c w =
     (case invoke (CallSetup p) (Setup d p c) w of
        ((Some err, c'), w') \<Rightarrow> (Some err, c', w')
      | ((None, c'), w') \<Rightarrow> setupLoop d plugins c' w')"

definition pluginList :: "('cs, 'v) collaborators \<Rightarrow> 'cs Config \<Rightarrow> ConfigPlugin list" where
  "pluginList d c =
     map (\<lambda>name. \<lparr>Name = name, PluginConfig = []\<rparr>) (defaultPluginNames d) @ Plugins c"

definition setupPlugins ::
  "('cs, 'v) collaborators \<Rightarrow> 'cs Config \<Rightarrow> world \<Rightarrow> error option \<times> 'cs Config \<times> world" where
  "setupPlugins d c w = setupLoop d (pluginList d c) c w"

section \<open>Normalization\<close>

text \<open>
  \<open>Restrict\<close> (lines 175-224), in two halves: \<open>Restrict_paths\<close> is lines 176-187
  (the defaults of \<open>Cluster\<close> and \<open>dir\<close>, and the two definition paths), and
  \<open>Restrict\<close> goes on from the parsed constraint to the plugins. The method updates
  the \<open>Config\<close> in place, so the \<open>Config\<close> is returned with the error.
\<close>

definition Restrict_paths :: "'cs Config \<Rightarrow> 'cs Config" where
  "Restrict_paths c0 =
     (let c1 = (if Cluster c0 = [] then c0\<lparr>Cluster := DefaultClusterName\<rparr> else c0);
          c2 = (if dir c1 = [] then c1\<lparr>dir := ''.''\<rparr> else c1);
          c3 = (if ServiceDefinitionPath c2 \<noteq> [] \<and> \<not> filepath_IsAbs (ServiceDefinitionPath c2)
                then c2\<lparr>ServiceDefinitionPath := filepath_Join [dir c2, ServiceDefinitionPath c2]\<rparr>
                else c2)
      in if TaskDefinitionPath c3 \<noteq> [] \<and> \<not> filepath_IsAbs (TaskDefinitionPath c3)
         then c3\<lparr>TaskDefinitionPath := filepath_Join [dir c3, TaskDefinitionPath c3]\<rparr>
         else c3)"

definition Restrict ::
  "('cs, 'v) collaborators \<Rightarrow> 'cs Config \<Rightarrow> world \<Rightarrow> error option \<times> 'cs Config \<times> world" where
  "Restrict d c0 w =
     (let c4 = Restrict_paths c0 in
      case (if RequiredVersion c4 \<noteq> [] then
              (case NewConstraint d (RequiredVersion c4) of
                 Inl err \<Rightarrow> Inl (Wrap ''required_version has invalid format: '' err)
               | Inr constraints \<Rightarrow> Inr (c4\<lparr>versionConstraints := Some constraints\<rparr>))
            else Inr c4) of
        Inl err \<Rightarrow> (Some err, c4, w)
      | Inr c5 \<Rightarrow>
          (let c6 = (if Timeout c5 = None then c5\<lparr>Timeout := Some DefaultTimeout\<rparr> else c5);
               c7 = (if Region c6 = [] then c6\<lparr>Region := Getenv ''AWS_REGION'' w\<rparr> else c6);
               optsFunc = (if length (awsv2ConfigLoadOptionsFunc w) = 0 then [WithRegion (Region c7)]
                           else awsv2ConfigLoadOptionsFunc w)
           in case invoke CallLoadDefaultConfig (LoadDefaultConfig d optsFunc) w of
                ((cfg, Some err), w1) \<Rightarrow>
                  (Some (Wrap ''failed to load aws config: '' err), c7\<lparr>awsv2Config := cfg\<rparr>, w1)
              | ((cfg, None), w1) \<Rightarrow>
                  (case setupPlugins d (c7\<lparr>awsv2Config := cfg\<rparr>) w1 of
                     (Some err, c8, w2) \<Rightarrow> (Some (Wrap ''failed to setup plugins: '' err), c8, w2)
                   | (None, c8, w2) \<Rightarrow>
                       (None, c8,
                        if FilterCommand c8 \<noteq> [] then
                          Log ''[WARNING] filter_command is deprecated. Use environment variable or CLI flag instead.'' w2
                        else w2))))"

section \<open>The version gate\<close>

text \<open>\<open>ValidateVersion\<close> (lines 251-266).\<close>

definition ValidateVersion ::
  "('cs, 'v) collaborators \<Rightarrow> 'cs Config \<Rightarrow> string \<Rightarrow> world \<Rightarrow> error option \<times> world" where
  "ValidateVersion d c version w =
     (case versionConstraints c of
        None \<Rightarrow> (None, w)
      | Some constraints \<Rightarrow>
          (case NewVersion d version of
             Inl err \<Rightarrow>
               (None, Log (''[WARNING] Invalid version format '' @ [CHR 0x22] @ version @ [CHR 0x22]
                            @ ''. Skip checking required_version.'') w)
           | Inr v \<Rightarrow>
               if \<not> Check d constraints v then
                 (Some (New (''version '' @ version
                    @ '' does not satisfy constraints required_version: ''
                    @ ConstraintsString d constraints)), w)
               else (None, w)))"

section \<open>Load\<close>

text \<open>
  \<open>Load\<close> (lines 121-163). \<open>Load_decode\<close> is the switch on the extension (lines
  122-147): it returns the decoded \<open>Config\<close>, or the error \<open>Load\<close> returns with a
  nil \<open>Config\<close>. \<open>Load\<close> returns the pair of the Go function, the loader with the
  functions the plugins registered, and the world.
\<close>

definition Load_decode ::
  "('cs, 'v) collaborators \<Rightarrow> configLoader \<Rightarrow> string \<Rightarrow> world \<Rightarrow> (error + 'cs Config) \<times> world" where
  "Load_decode d l file w =
     (let conf = zeroConfig\<lparr>path := file\<rparr>; ext = filepath_Ext file in
      if ext = ymlExt \<or> ext = yamlExt then
        (case ReadWithEnv d l file None w of
           (Inl err, w1) \<Rightarrow> (Inl err, w1)
         | (Inr b, w1) \<Rightarrow>
             (case unmarshalYAML d b conf file of
                (Some err, conf') \<Rightarrow>
                  (Inl (Wrap ''failed to parse yaml: '' err), emit (CallUnmarshalYAML file) w1)
              | (None, conf') \<Rightarrow> (Inr conf', emit (CallUnmarshalYAML file) w1)))
      else if ext = jsonExt \<or> ext = jsonnetExt then
        (case invoke (CallEvaluateFile file) (EvaluateFile d l file) w of
           (Inl err, w0) \<Rightarrow> (Inl (Wrap ''failed to evaluate jsonnet file: '' err), w0)
         | (Inr jsonStr, w0) \<Rightarrow>
             (case ReadWithEnvBytes d l jsonStr None w0 of
                (Inl err, w1) \<Rightarrow> (Inl (Wrap ''failed to read template file: '' err), w1)
              | (Inr b, w1) \<Rightarrow>
                  (case unmarshalJSON d b conf file of
                     (Some err, conf') \<Rightarrow>
                       (Inl (Wrap ''failed to unmarshal json: '' err), emit (CallUnmarshalJSON file) w1)
                   | (None, conf') \<Rightarrow> (Inr conf', emit (CallUnmarshalJSON file) w1))))
      else (Inl (New (''unsupported config file extension: '' @ ext)), w))"

definition Load ::
  "('cs, 'v) collaborators \<Rightarrow> configLoader \<Rightarrow> string \<Rightarrow> string \<Rightarrow> world
    \<Rightarrow> ('cs Config option \<times> error option) \<times> configLoader \<times> world" where
  "Load d l file version w =
     (case Load_decode d l file w of
        (Inl err, w1) \<Rightarrow> ((None, Some err), l, w1)
      | (Inr conf, w1) \<Rightarrow>
          (case Restrict d (conf\<lparr>dir := filepath_Dir file\<rparr>) w1 of
             (Some err, conf2, w2) \<Rightarrow> ((None, Some err), l, w2)
           | (None, conf2, w2) \<Rightarrow>
               (case ValidateVersion d conf2 version w2 of
                  (Some err, w3) \<Rightarrow> ((None, Some err), l, w3)
                | (None, w3) \<Rightarrow>
                    ((Some conf2, None),
                     l\<lparr>loaderFuncs := loaderFuncs l @ templateFuncs conf2,
                       vmNativeFuncs := vmNativeFuncs l @ jsonnetNativeFuncs conf2\<rparr>,
                     w3))))"

section \<open>The end-to-end scenarios\<close>

text \<open>
  Concrete collaborators, on which the theorems below are run: a YAML document with
  \<open>region: us-east-1\<close>, \<open>service: test\<close> and one entry under \<open>env\<close>; the
  jsonnet document of the repository, which requires \<open>AWS_REGION\<close> and declares the two definition paths and the plugin
  \<open>tfstate\<close>; the constraint \<open>>= 2.0.0\<close> with the versions \<open>1.9.0\<close> and
  \<open>2.1.0\<close>; and a \<open>Setup\<close> that knows the plugin \<open>tfstate\<close>, which registers a
  template function. A constraint set and a version are kept as their text.
\<close>

definition scenario :: "(string, string) collaborators" where
  "scenario =
     \<lparr>mapRange = (\<lambda>xs. xs),
      LoaderReadWithEnv = (\<lambda>l p e. (Inr ''region: us-east-1 service: test'', e)),
      LoaderReadWithEnvBytes = (\<lambda>l b e. (Inr b, e)),
      EvaluateFile = (\<lambda>l p e. (case e ''AWS_REGION'' of
                                 None \<Rightarrow> Inl (New ''must_env: AWS_REGION is not set'')
                               | Some r \<Rightarrow> Inr r, e)),
      unmarshalYAML = (\<lambda>b conf p.
         (None, conf\<lparr>Region := ''us-east-1'', Service := ''test'',
                     Env := Some [(''STAGE'', ''production'')]\<rparr>)),
      unmarshalJSON = (\<lambda>b conf p.
         (None, conf\<lparr>Region := b, Cluster := ''default'', Service := ''test'',
                     ServiceDefinitionPath := ''ecs-service-def.json'',
                     TaskDefinitionPath := ''ecs-task-def.json'',
                     Plugins := [\<lparr>Name = ''tfstate'',
                                  PluginConfig = [(''path'', ''terraform.tfstate'')]\<rparr>]\<rparr>)),
      NewConstraint = (\<lambda>s. if s = ''>= 2.0.0'' then Inr s else Inl (New (''Malformed constraint: '' @ s))),
      NewVersion = (\<lambda>s. if s = ''1.9.0'' \<or> s = ''2.1.0'' then Inr s
                         else Inl (New (''Malformed version: '' @ s))),
      Check = (\<lambda>cs v. v = ''2.1.0''),
      ConstraintsString = (\<lambda>cs. cs),
      LoadDefaultConfig = (\<lambda>opts e. ((\<lparr>ConfigRegion = [], Credentials = None\<rparr>, None), e)),
      defaultPluginNames = [],
      Setup = (\<lambda>p c e.
                 (if Name p = ''tfstate'' then (None, c\<lparr>templateFuncs := templateFuncs c @ [[''tfstate'']]\<rparr>)
                  else (Some (New (''plugin '' @ Name p @ '' is not available'')), c), e))\<rparr>"

text \<open>
  A YAML document with \<open>required_version: ">= 2.0.0"\<close>, and one whose
  \<open>required_version\<close> is not a constraint, with a plugin.
\<close>

definition pinnedVersion :: "(string, string) collaborators" where
  "pinnedVersion =
     scenario\<lparr>unmarshalYAML := (\<lambda>b conf p.
        (None, conf\<lparr>RequiredVersion := ''>= 2.0.0'', Service := ''test''\<rparr>))\<rparr>"

definition malformedConstraint :: "(string, string) collaborators" where
  "malformedConstraint =
     scenario\<lparr>unmarshalYAML := (\<lambda>b conf p.
        (None, conf\<lparr>RequiredVersion := ''two or later'', Service := ''test'',
                    Plugins := [\<lparr>Name = ''tfstate'', PluginConfig = []\<rparr>]\<rparr>))\<rparr>"

text \<open>
  Two more plugin implementations. \<open>Setup\<close> is given the \<open>Config\<close> by pointer and
  may rewrite any field of it: the first empties the cluster name and the timeout. The
  second fails, and hands on the error of a connection of its own as it is.
\<close>

definition rewritingPlugin :: "(string, string) collaborators" where
  "rewritingPlugin =
     scenario\<lparr>Setup := (\<lambda>p c e. ((None, c\<lparr>Cluster := [], Timeout := None\<rparr>), e))\<rparr>"

definition refusedConnection :: "(string, string) collaborators" where
  "refusedConnection =
     scenario\<lparr>Setup := (\<lambda>p c e. ((Some (New ''connection refused''), c), e))\<rparr>"

text \<open>The scenario with \<open>tfstate\<close> as the one default plugin.\<close>

definition defaultPlugins :: "(string, string) collaborators" where
  "defaultPlugins = scenario\<lparr>defaultPluginNames := [''tfstate'']\<rparr>"

definition emptyWorld :: world where
  "emptyWorld = \<lparr>environ = Map.empty, awsv2ConfigLoadOptionsFunc = [], trace = []\<rparr>"

definition emptyLoader :: configLoader where
  "emptyLoader = \<lparr>loaderFuncs = [], vmExtVars = [], vmExtCode = [], vmNativeFuncs = []\<rparr>"

text \<open>An operation that reports what \<open>LookupEnv\<close> finds under a key while it runs.\<close>

definition lookupOperation :: "string \<Rightarrow> world \<Rightarrow> string option \<times> world" where
  "lookupOperation key w = (LookupEnv key w, w)"

section \<open>Properties of the overlay\<close>

lemma Setenv_environ:
  "environ (snd (Setenv k v w)) =
     (if fst (Setenv k v w0) = None then (environ w)(k \<mapsto> v) else environ w)"
  by (simp add: Setenv_def)

lemma Setenv_frame:
  "(snd (Setenv k v w))\<lparr>environ := e\<rparr> = w\<lparr>environ := e\<rparr>"
  by (simp add: Setenv_def)

lemma Setenv_accepts:
  "fst (Setenv k v w) = None \<longleftrightarrow>
     k \<noteq> [] \<and> CHR ''='' \<notin> set k \<and> CHR 0x00 \<notin> set k \<and> CHR 0x00 \<notin> set v"
  by (simp add: Setenv_def)

lemma update_absent:
  "k \<notin> fst ` set al \<Longrightarrow> AList.update k v al = al @ [(k, v)]"
  by (induction al) auto

lemma saveAndSet_distinct:
  "distinct (map fst kvs) \<Longrightarrow> fst ` set kvs \<inter> fst ` set old = {} \<Longrightarrow>
   saveAndSet kvs old w =
     (old @ map (\<lambda>(k, v). (k, LookupEnv k w)) kvs,
      w\<lparr>environ := environ w ++ map_of (filter (\<lambda>(k, v). fst (Setenv k v w0) = None) kvs)\<rparr>)"
proof (induction kvs arbitrary: old w)
  case Nil
  show ?case by simp
next
  case (Cons kv kvs)
  let ?ok = "\<lambda>(k, v). fst (Setenv k v w0) = None"
  obtain k v where kv: "kv = (k, v)" by (cases kv)
  let ?w' = "snd (Setenv k v w)"
  from Cons.prems kv have absent: "k \<notin> fst ` set old" and fresh: "k \<notin> fst ` set kvs"
    and dist: "distinct (map fst kvs)" by auto
  have disj: "fst ` set kvs \<inter> fst ` set (old @ [(k, LookupEnv k w)]) = {}"
    using Cons.prems fresh kv by auto
  have other: "LookupEnv k' ?w' = LookupEnv k' w" if "k' \<noteq> k" for k'
    using that by (simp add: LookupEnv_def Setenv_environ [of k v w w0])
  have same: "map (\<lambda>(k', v'). (k', LookupEnv k' ?w')) kvs
      = map (\<lambda>(k', v'). (k', LookupEnv k' w)) kvs"
    using fresh other by (auto simp: image_iff)
  have none: "map_of (filter ?ok kvs) k = None"
    using fresh by (auto simp: map_of_eq_None_iff image_iff)
  have env: "environ ?w' ++ map_of (filter ?ok kvs)
      = environ w ++ map_of (filter ?ok ((k, v) # kvs))"
  proof
    fix x
    show "(environ ?w' ++ map_of (filter ?ok kvs)) x
        = (environ w ++ map_of (filter ?ok ((k, v) # kvs))) x"
      using none
      by (cases "x = k")
        (simp_all add: Setenv_environ [of k v w w0] map_add_def split: option.splits)
  qed
  have lists: "(old @ [(k, LookupEnv k w)]) @ map (\<lambda>(k', v'). (k', LookupEnv k' w)) kvs
      = old @ map (\<lambda>(k', v'). (k', LookupEnv k' w)) ((k, v) # kvs)"
    by simp
  have "saveAndSet (kv # kvs) old w
      = saveAndSet kvs (old @ [(k, LookupEnv k w)]) ?w'"
    by (simp add: kv update_absent [OF absent])
  also have "\<dots> = (old @ map (\<lambda>(k', v'). (k', LookupEnv k' w)) ((k, v) # kvs),
      w\<lparr>environ := environ w ++ map_of (filter ?ok ((k, v) # kvs))\<rparr>)"
    unfolding Cons.IH [OF dist disj, of ?w'] same env Setenv_frame lists ..
  finally show ?case
    unfolding kv .
qed

lemma restoreEnv_environ:
  "distinct (map fst olds) \<Longrightarrow>
   (\<And>k v. (k, Some v) \<in> set olds \<Longrightarrow> fst (Setenv k v w0) = None) \<Longrightarrow>
   environ (restoreEnv olds w) k = (case map_of olds k of None \<Rightarrow> environ w k | Some ov \<Rightarrow> ov)"
proof (induction olds w rule: restoreEnv.induct)
  case (1 w)
  show ?case by simp
next
  case (2 k' kvs w)
  then show ?case
    by (auto simp: Unsetenv_def map_of_eq_None_iff image_iff split: option.splits)
next
  case (3 k' v kvs w)
  then have "fst (Setenv k' v w0) = None" by simp
  with 3 show ?case
    by (auto simp: Setenv_environ [of k' v w w0] map_of_eq_None_iff image_iff
        split: option.splits)
qed

lemma restoreEnv_frame:
  "awsv2ConfigLoadOptionsFunc (restoreEnv olds w) = awsv2ConfigLoadOptionsFunc w
   \<and> trace (restoreEnv olds w) = trace w \<and> world.more (restoreEnv olds w) = world.more w"
  by (induction olds w rule: restoreEnv.induct) (auto simp: Setenv_def Unsetenv_def)

lemma restoreEnv_eq:
  assumes "distinct (map fst olds)"
    and "\<And>k v. (k, Some v) \<in> set olds \<Longrightarrow> fst (Setenv k v w0) = None"
  shows "restoreEnv olds w =
    w\<lparr>environ := (\<lambda>k. case map_of olds k of None \<Rightarrow> environ w k | Some ov \<Rightarrow> ov)\<rparr>"
proof -
  have "environ (restoreEnv olds w)
      = (\<lambda>k. case map_of olds k of None \<Rightarrow> environ w k | Some ov \<Rightarrow> ov)"
    using restoreEnv_environ [OF assms] by blast
  then show ?thesis
    using restoreEnv_frame [of olds w] by (intro world.equality) simp_all
qed

lemma permuted_alist:
  assumes "mset ys = mset xs" and "distinct (map fst xs)"
  shows "distinct (map fst ys) \<and> map_of ys = map_of xs \<and> set ys = set xs"
proof -
  have "mset (map fst ys) = mset (map fst xs)"
    using assms(1) by (metis mset_map)
  then have d: "distinct (map fst ys)"
    using assms(2) mset_eq_imp_distinct_iff by blast
  have "set ys = set xs"
    using assms(1) mset_eq_setD by blast
  then show ?thesis
    using d assms(2) map_of_inject_set by blast
qed

lemma saved_lookup:
  "distinct (map fst kvs) \<Longrightarrow>
   map_of (map (\<lambda>(k, v). (k, e k)) kvs) k = (if k \<in> fst ` set kvs then Some (e k) else None)"
  by (induction kvs) (auto simp: image_iff)

lemma accepted_lookup:
  assumes "distinct (map fst kvs)" and "(k, v) \<in> set kvs"
  shows "map_of (filter (\<lambda>(k, v). fst (Setenv k v w) = None) kvs) k
    = (if fst (Setenv k v w) = None then Some v else None)"
proof (cases "fst (Setenv k v w) = None")
  case True
  have "distinct (map fst (filter (\<lambda>(k, v). fst (Setenv k v w) = None) kvs))"
    using assms(1) by (simp add: distinct_map_filter)
  then show ?thesis
    using True assms(2) by simp
next
  case False
  have "map_of (filter (\<lambda>(k, v). fst (Setenv k v w) = None) kvs) k = None"
  proof (rule ccontr)
    assume "map_of (filter (\<lambda>(k, v). fst (Setenv k v w) = None) kvs) k \<noteq> None"
    then obtain v' where "map_of (filter (\<lambda>(k, v). fst (Setenv k v w) = None) kvs) k = Some v'"
      by auto
    then have "(k, v') \<in> set kvs" and "fst (Setenv k v' w) = None"
      by (auto dest!: map_of_SomeD)
    with assms have "v' = v" by (meson eq_key_imp_eq_value)
    with \<open>fst (Setenv k v' w) = None\<close> False show False by simp
  qed
  with False show ?thesis by simp
qed

text \<open>
  C1. Let \<open>extraEnv\<close> be a map (distinct keys), \<open>f\<close> any operation, the two
  \<open>range\<close> loops run in any order, and the environment table hold, as that of a
  process does, no name with \<open>=\<close> or a NUL byte and no value with a NUL byte.
  \<open>withExtraEnvSet\<close> runs \<open>f\<close> in the world where every entry of \<open>extraEnv\<close> that
  \<open>Setenv\<close> accepts (a name that is not empty and holds neither \<open>=\<close> nor NUL, a
  value without NUL) is installed, and where nothing else has changed: an entry that
  \<open>Setenv\<close> refuses leaves its key as it was. It returns what \<open>f\<close> returned
  (failure included) and leaves every key of \<open>extraEnv\<close> as it was before the call:
  the previous value if it was set, absent if it was absent. With a nil or an empty
  map it is \<open>f\<close> alone, with no change to the environment.
\<close>

theorem withExtraEnvSet_restores:
  assumes "distinct (map fst kvs)" and "\<And>xs. mset (order xs) = mset xs"
    and "\<And>k v. environ w k = Some v \<Longrightarrow>
           CHR ''='' \<notin> set k \<and> CHR 0x00 \<notin> set k \<and> CHR 0x00 \<notin> set v"
  shows "(\<forall>(k, v) \<in> set kvs.
            if k \<noteq> [] \<and> CHR ''='' \<notin> set k \<and> CHR 0x00 \<notin> set k \<and> CHR 0x00 \<notin> set v
            then fst (Setenv k v w) = None
              \<and> LookupEnv k (w\<lparr>environ := environ w
                     ++ map_of (filter (\<lambda>(k, v). fst (Setenv k v w) = None) kvs)\<rparr>) = Some v
            else fst (Setenv k v w) \<noteq> None
              \<and> LookupEnv k (w\<lparr>environ := environ w
                     ++ map_of (filter (\<lambda>(k, v). fst (Setenv k v w) = None) kvs)\<rparr>)
                  = LookupEnv k w)
    \<and> withExtraEnvSet order (Some kvs) f w =
        (case f (w\<lparr>environ := environ w
                     ++ map_of (filter (\<lambda>(k, v). fst (Setenv k v w) = None) kvs)\<rparr>) of
           (r, w2) \<Rightarrow>
             (r, w2\<lparr>environ := (\<lambda>k. if k \<in> fst ` set kvs then LookupEnv k w else environ w2 k)\<rparr>))
    \<and> (\<forall>k \<in> fst ` set kvs.
          LookupEnv k (snd (withExtraEnvSet order (Some kvs) f w)) = LookupEnv k w
          \<and> (k \<noteq> [] \<longrightarrow> environ (snd (withExtraEnvSet order (Some kvs) f w)) k = environ w k))
    \<and> withExtraEnvSet order None f w = f w
    \<and> withExtraEnvSet order (Some []) f w = f w"
proof -
  let ?ok = "\<lambda>(k, v). fst (Setenv k v w) = None"
  let ?w1 = "w\<lparr>environ := environ w ++ map_of (filter ?ok kvs)\<rparr>"
  let ?olds = "map (\<lambda>(k, v). (k, LookupEnv k w)) kvs"
  have installed: "\<forall>(k, v) \<in> set kvs.
            if k \<noteq> [] \<and> CHR ''='' \<notin> set k \<and> CHR 0x00 \<notin> set k \<and> CHR 0x00 \<notin> set v
            then fst (Setenv k v w) = None \<and> LookupEnv k ?w1 = Some v
            else fst (Setenv k v w) \<noteq> None \<and> LookupEnv k ?w1 = LookupEnv k w"
  proof (clarify)
    fix k v assume kv: "(k, v) \<in> set kvs"
    show "if k \<noteq> [] \<and> CHR ''='' \<notin> set k \<and> CHR 0x00 \<notin> set k \<and> CHR 0x00 \<notin> set v
            then fst (Setenv k v w) = None \<and> LookupEnv k ?w1 = Some v
            else fst (Setenv k v w) \<noteq> None \<and> LookupEnv k ?w1 = LookupEnv k w"
      using accepted_lookup [OF assms(1) kv, of w] Setenv_accepts [of k v w]
      by (auto simp: LookupEnv_def map_add_def)
  qed
  have sv: "saveAndSet kvs [] w = (?olds, ?w1)"
    using saveAndSet_distinct [OF assms(1), of "[]" w w] by simp
  have keys: "map fst ?olds = map fst kvs"
    by (induction kvs) auto
  have dolds: "distinct (map fst ?olds)"
    using keys assms(1) by metis
  have perm: "distinct (map fst (order ?olds)) \<and> map_of (order ?olds) = map_of ?olds
      \<and> set (order ?olds) = set ?olds"
    using dolds by (rule permuted_alist [OF assms(2)])
  have ok: "fst (Setenv k v w) = None" if "(k, Some v) \<in> set (order ?olds)" for k v
  proof -
    from that perm have "(k, Some v) \<in> set ?olds" by simp
    then have "LookupEnv k w = Some v" by auto
    then have "k \<noteq> []" and "environ w k = Some v"
      by (auto simp: LookupEnv_def split: if_splits)
    with assms(3) [of k v] show ?thesis by (simp add: Setenv_accepts)
  qed
  have main: "withExtraEnvSet order (Some kvs) f w =
        (case f ?w1 of
           (r, w2) \<Rightarrow>
             (r, w2\<lparr>environ := (\<lambda>k. if k \<in> fst ` set kvs then LookupEnv k w else environ w2 k)\<rparr>))"
  proof (cases "f ?w1")
    case (Pair r w2)
    have "restoreEnv (order ?olds) w2 =
        w2\<lparr>environ := (\<lambda>k. case map_of (order ?olds) k of None \<Rightarrow> environ w2 k | Some ov \<Rightarrow> ov)\<rparr>"
      using perm ok by (intro restoreEnv_eq [where ?w0.0 = w]) auto
    moreover have "(\<lambda>k. case map_of (order ?olds) k of None \<Rightarrow> environ w2 k | Some ov \<Rightarrow> ov)
        = (\<lambda>k. if k \<in> fst ` set kvs then LookupEnv k w else environ w2 k)"
      using saved_lookup [OF assms(1), of "\<lambda>k. LookupEnv k w"] perm by auto
    ultimately show ?thesis
      by (simp add: withExtraEnvSet_def sv Pair)
  qed
  have restored: "\<forall>k \<in> fst ` set kvs.
          LookupEnv k (snd (withExtraEnvSet order (Some kvs) f w)) = LookupEnv k w
          \<and> (k \<noteq> [] \<longrightarrow> environ (snd (withExtraEnvSet order (Some kvs) f w)) k = environ w k)"
    unfolding main by (cases "f ?w1") (auto simp: LookupEnv_def)
  have "order [] = []"
    using assms(2) [of "[]"] by simp
  then have empty: "withExtraEnvSet order (Some []) f w = f w"
    by (cases "f w") (simp add: withExtraEnvSet_def)
  have nil: "withExtraEnvSet order None f w = f w"
    by (simp add: withExtraEnvSet_def)
  from installed main restored nil empty show ?thesis by blast
qed

theorem withExtraEnvSet_restores_witness:
  "distinct (map fst [(''FOO'', ''1''), (''A=B'', ''x''), (''BAR'', ''2'')])
   \<and> LookupEnv ''FOO'' (snd (withExtraEnvSet rev (Some [(''FOO'', ''1''), (''A=B'', ''x''), (''BAR'', ''2'')])
        (\<lambda>w. (Some (New ''read failed''), snd (Setenv ''FOO'' ''changed'' w)))
        \<lparr>environ = [''FOO'' \<mapsto> ''0''], awsv2ConfigLoadOptionsFunc = [], trace = []\<rparr>))
       = Some ''0''
   \<and> LookupEnv ''BAR'' (snd (withExtraEnvSet rev (Some [(''FOO'', ''1''), (''A=B'', ''x''), (''BAR'', ''2'')])
        (\<lambda>w. (Some (New ''read failed''), snd (Setenv ''FOO'' ''changed'' w)))
        \<lparr>environ = [''FOO'' \<mapsto> ''0''], awsv2ConfigLoadOptionsFunc = [], trace = []\<rparr>))
       = None
   \<and> LookupEnv ''A=B'' (snd (withExtraEnvSet rev (Some [(''FOO'', ''1''), (''A=B'', ''x''), (''BAR'', ''2'')])
        (\<lambda>w. (Some (New ''read failed''), snd (Setenv ''FOO'' ''changed'' w)))
        \<lparr>environ = [''FOO'' \<mapsto> ''0''], awsv2ConfigLoadOptionsFunc = [], trace = []\<rparr>))
       = None"
proof -
  have table: "environ \<lparr>environ = [''FOO'' \<mapsto> ''0''], awsv2ConfigLoadOptionsFunc = [], trace = []\<rparr> k = Some v
      \<Longrightarrow> CHR ''='' \<notin> set k \<and> CHR 0x00 \<notin> set k \<and> CHR 0x00 \<notin> set v" for k v
    by (auto split: if_splits)
  have perm: "mset (rev xs) = mset xs" for xs :: "(string \<times> string option) list"
    by simp
  have keys: "distinct (map fst [(''FOO'', ''1''), (''A=B'', ''x''), (''BAR'', ''2'')])"
    by simp
  show ?thesis
    using withExtraEnvSet_restores [where kvs = "[(''FOO'', ''1''), (''A=B'', ''x''), (''BAR'', ''2'')]"
      and order = rev
      and w = "\<lparr>environ = [''FOO'' \<mapsto> ''0''], awsv2ConfigLoadOptionsFunc = [], trace = []\<rparr>"
      and f = "\<lambda>w. (Some (New ''read failed''), snd (Setenv ''FOO'' ''changed'' w))",
      OF keys perm table]
    by (simp add: LookupEnv_def)
qed

text \<open>
  The claim as it is written fails at the map \<open>{"A=B": "x"}\<close>: \<open>Setenv\<close> refuses the
  name, and the operation runs without the key.
\<close>

theorem withExtraEnvSet_refused_key:
  "fst (Setenv ''A=B'' ''x'' emptyWorld) = Some (Wrap ''setenv: '' EINVAL)
   \<and> fst (withExtraEnvSet (mapRange scenario) (Some [(''A=B'', ''x'')]) (lookupOperation ''A=B'') emptyWorld)
       = None"
  by (simp add: withExtraEnvSet_def lookupOperation_def LookupEnv_def Setenv_def Unsetenv_def
      emptyWorld_def scenario_def)

section \<open>Properties of the tag filter\<close>

lemma lo_Filter_loop_filter:
  "lo_Filter_loop xs (\<lambda>x _. Q x) i acc = acc @ filter Q xs"
  by (induction xs arbitrary: i acc) auto

lemma lo_Contains_set: "lo_Contains xs e \<longleftrightarrow> e \<in> set xs"
  by (induction xs) auto

lemma filterTags_filter:
  "filterTags i tags =
     filter (\<lambda>tag. aws_ToString (Key tag) \<notin> set (case i of None \<Rightarrow> [] | Some r \<Rightarrow> Tags r)) tags"
  by (cases i) (simp_all add: filterTags_def lo_Filter_def lo_Filter_loop_filter lo_Contains_set)

text \<open>
  C6. \<open>Apply\<close> returns no error and leaves in the entity exactly the tags whose key
  (the nil key read as the empty string) is not among the rule's keys, in their order,
  touching nothing else of the entity; with a nil rule or an empty key list the entity
  is unchanged; and applying it to its own result changes nothing.
\<close>

theorem Apply_filters_tags:
  "snd (Apply i v) = None
   \<and> GetTags (fst (Apply i v)) =
       filter (\<lambda>tag. aws_ToString (Key tag) \<notin> set (case i of None \<Rightarrow> [] | Some r \<Rightarrow> Tags r))
         (GetTags v)
   \<and> hasTags.more (fst (Apply i v)) = hasTags.more v
   \<and> Apply None v = (v, None)
   \<and> Apply (Some (r\<lparr>Tags := []\<rparr>)) v = (v, None)
   \<and> Apply i (fst (Apply i v)) = Apply i v"
  by (simp add: Apply_def GetTags_def SetTags_def filterTags_filter)

theorem Apply_filters_tags_witness:
  "Apply (Some \<lparr>Tags = [''ecspresso:ignore'']\<rparr>)
     \<lparr>tagList = [\<lparr>Key = Some ''ecspresso:ignore'', Value = Some ''1''\<rparr>,
                 \<lparr>Key = Some ''env'', Value = Some ''prod''\<rparr>]\<rparr>
   = (\<lparr>tagList = [\<lparr>Key = Some ''env'', Value = Some ''prod''\<rparr>]\<rparr>, None)
   \<and> GetTags (fst (Apply (Some \<lparr>Tags = [''ecspresso:ignore'']\<rparr>)
     \<lparr>tagList = [\<lparr>Key = Some ''ecspresso:ignore'', Value = Some ''1''\<rparr>,
                 \<lparr>Key = Some ''env'', Value = Some ''prod''\<rparr>]\<rparr>))
     = [\<lparr>Key = Some ''env'', Value = Some ''prod''\<rparr>]"
  using Apply_filters_tags [of "Some \<lparr>Tags = [''ecspresso:ignore'']\<rparr>"
     "\<lparr>tagList = [\<lparr>Key = Some ''ecspresso:ignore'', Value = Some ''1''\<rparr>,
                 \<lparr>Key = Some ''env'', Value = Some ''prod''\<rparr>]\<rparr>"]
  by (simp add: Apply_def SetTags_def GetTags_def aws_ToString_def)

section \<open>Properties of the version gate\<close>

text \<open>
  C2. \<open>ValidateVersion\<close> returns an error exactly when the \<open>Config\<close> holds a
  constraint set, the version string parses, and the parsed version fails the check;
  the error's message is then
  \<open>version <version> does not satisfy constraints required_version: <constraints>\<close>.
  With no constraint set, with a version that does not parse, and with a version that
  passes the check, it returns nil.
\<close>

theorem ValidateVersion_fails_iff:
  "(fst (ValidateVersion d c version w) \<noteq> None
      \<longleftrightarrow> (\<exists>cs v. versionConstraints c = Some cs \<and> NewVersion d version = Inr v \<and> \<not> Check d cs v))
   \<and> (\<forall>cs v. versionConstraints c = Some cs \<and> NewVersion d version = Inr v \<and> \<not> Check d cs v
         \<longrightarrow> fst (ValidateVersion d c version w)
             = Some (New (''version '' @ version
                  @ '' does not satisfy constraints required_version: ''
                  @ ConstraintsString d cs)))
   \<and> (versionConstraints c = None \<longrightarrow> fst (ValidateVersion d c version w) = None)
   \<and> (\<forall>e. NewVersion d version = Inl e \<longrightarrow> fst (ValidateVersion d c version w) = None)
   \<and> (\<forall>cs v. versionConstraints c = Some cs \<and> NewVersion d version = Inr v \<and> Check d cs v
         \<longrightarrow> fst (ValidateVersion d c version w) = None)"
  by (auto simp: ValidateVersion_def split: option.splits sum.splits)

theorem ValidateVersion_fails_iff_witness:
  "fst (ValidateVersion scenario (zeroConfig\<lparr>versionConstraints := Some ''>= 2.0.0''\<rparr>) ''1.9.0'' emptyWorld)
     = Some (New ''version 1.9.0 does not satisfy constraints required_version: >= 2.0.0'')
   \<and> fst (ValidateVersion scenario (zeroConfig\<lparr>versionConstraints := Some ''>= 2.0.0''\<rparr>) ''2.1.0'' emptyWorld)
     = None
   \<and> fst (ValidateVersion scenario (zeroConfig\<lparr>versionConstraints := Some ''>= 2.0.0''\<rparr>) ''current'' emptyWorld)
     = None"
proof -
  let ?c = "zeroConfig\<lparr>versionConstraints := Some ''>= 2.0.0''\<rparr> :: string Config"
  have cs: "versionConstraints ?c = Some ''>= 2.0.0''"
    by simp
  have old: "NewVersion scenario ''1.9.0'' = Inr ''1.9.0''"
    and new: "NewVersion scenario ''2.1.0'' = Inr ''2.1.0''"
    and dev: "NewVersion scenario ''current'' = Inl (New ''Malformed version: current'')"
    by (simp_all add: scenario_def)
  have violates: "\<not> Check scenario ''>= 2.0.0'' ''1.9.0''"
    and satisfies: "Check scenario ''>= 2.0.0'' ''2.1.0''"
    by (simp_all add: scenario_def)
  have printed: "ConstraintsString scenario ''>= 2.0.0'' = ''>= 2.0.0''"
    by (simp add: scenario_def)
  have "fst (ValidateVersion scenario ?c ''1.9.0'' emptyWorld)
      = Some (New (''version '' @ ''1.9.0''
          @ '' does not satisfy constraints required_version: ''
          @ ConstraintsString scenario ''>= 2.0.0''))"
    using ValidateVersion_fails_iff [of scenario ?c "''1.9.0''" emptyWorld] cs old violates
    by blast
  moreover have "fst (ValidateVersion scenario ?c ''2.1.0'' emptyWorld) = None"
    using ValidateVersion_fails_iff [of scenario ?c "''2.1.0''" emptyWorld] cs new satisfies
    by blast
  moreover have "fst (ValidateVersion scenario ?c ''current'' emptyWorld) = None"
    using ValidateVersion_fails_iff [of scenario ?c "''current''" emptyWorld] dev
    by blast
  ultimately show ?thesis
    by (simp add: printed)
qed

section \<open>Calls, the plugin loop and the steps of normalization\<close>

lemma invoke_world:
  "invoke ev g w = (fst (g (environ w)), emit ev (w\<lparr>environ := snd (g (environ w))\<rparr>))"
  by (simp add: invoke_def split: prod.splits)

lemma emit_environ: "environ (emit ev w) = environ w"
  by (simp add: emit_def)


lemma invoke_trace: "trace (snd (invoke ev g w)) = trace w @ [ev]"
  by (simp add: invoke_world emit_def)

lemma ReadWithEnv_nil:
  "ReadWithEnv d l configPath None w
     = invoke (CallReadWithEnv configPath) (LoaderReadWithEnv d l configPath) w"
  by (simp add: ReadWithEnv_def withExtraEnvSet_def)

lemma ReadWithEnvBytes_nil:
  "ReadWithEnvBytes d l b None w
     = invoke (CallReadWithEnvBytes b) (LoaderReadWithEnvBytes d l b) w"
  by (simp add: ReadWithEnvBytes_def withExtraEnvSet_def)

lemma setupLoop_Cons:
  "setupLoop d (p # plugins) c w =
     (case fst (fst (Setup d p c (environ w))) of
        Some err \<Rightarrow>
          (Some err, snd (fst (Setup d p c (environ w))), snd (invoke (CallSetup p) (Setup d p c) w))
      | None \<Rightarrow>
          setupLoop d plugins (snd (fst (Setup d p c (environ w))))
            (snd (invoke (CallSetup p) (Setup d p c) w)))"
  by (simp add: invoke_world split: prod.splits option.splits)


lemma setupLoop_succeeds:
  "setupLoop d plugins c w = (None, c', w') \<Longrightarrow> trace w' = trace w @ map CallSetup plugins"
proof (induction plugins arbitrary: c w)
  case Nil
  then show ?case by simp
next
  case (Cons p plugins)
  show ?case
  proof (cases "fst (fst (Setup d p c (environ w)))")
    case None
    with Cons.prems [unfolded setupLoop_Cons]
    have "setupLoop d plugins (snd (fst (Setup d p c (environ w))))
        (snd (invoke (CallSetup p) (Setup d p c) w)) = (None, c', w')"
      by simp
    from Cons.IH [OF this] show ?thesis
      by (simp add: invoke_trace)
  next
    case (Some err)
    with Cons.prems [unfolded setupLoop_Cons] show ?thesis
      by simp
  qed
qed

lemma setupLoop_fails:
  "setupLoop d plugins c w = (Some err, c', w') \<Longrightarrow>
   \<exists>called p rest c1 w1.
     plugins = called @ p # rest
     \<and> setupLoop d called c w = (None, c1, w1)
     \<and> Setup d p c1 (environ w1) = ((Some err, c'), environ w')
     \<and> trace w' = trace w @ map CallSetup (called @ [p])"
proof (induction plugins arbitrary: c w)
  case Nil
  then show ?case by simp
next
  case (Cons p plugins)
  let ?c = "snd (fst (Setup d p c (environ w)))"
  let ?w = "snd (invoke (CallSetup p) (Setup d p c) w)"
  show ?case
  proof (cases "fst (fst (Setup d p c (environ w)))")
    case None
    with Cons.prems [unfolded setupLoop_Cons]
    have "setupLoop d plugins ?c ?w = (Some err, c', w')"
      by simp
    from Cons.IH [OF this] obtain called q rest c1 w1 where
      parts: "plugins = called @ q # rest"
      and earlier: "setupLoop d called ?c ?w = (None, c1, w1)"
      and failing: "Setup d q c1 (environ w1) = ((Some err, c'), environ w')"
      and tr: "trace w' = trace ?w @ map CallSetup (called @ [q])"
      by blast
    have "setupLoop d (p # called) c w = (None, c1, w1)"
      unfolding setupLoop_Cons using None earlier by simp
    moreover have "p # plugins = (p # called) @ q # rest"
      using parts by simp
    moreover have "trace w' = trace w @ map CallSetup ((p # called) @ [q])"
      using tr by (simp add: invoke_trace)
    ultimately show ?thesis
      using failing by blast
  next
    case (Some err')
    with Cons.prems [unfolded setupLoop_Cons]
    have res: "err' = err" "c' = ?c" "w' = ?w"
      by simp_all
    have "Setup d p c (environ w) = ((Some err, c'), environ w')"
      using Some res by (simp add: invoke_world emit_environ prod_eq_iff)
    moreover have "trace w' = trace w @ map CallSetup ([] @ [p])"
      using res by (simp add: invoke_trace)
    moreover have "setupLoop d [] c w = (None, c, w)"
      by simp
    moreover have "p # plugins = [] @ p # plugins"
      by simp
    ultimately show ?thesis
      by blast
  qed
qed

lemma Restrict_paths_frame:
  "RequiredVersion (Restrict_paths c) = RequiredVersion c
   \<and> Timeout (Restrict_paths c) = Timeout c
   \<and> Region (Restrict_paths c) = Region c
   \<and> Plugins (Restrict_paths c) = Plugins c
   \<and> FilterCommand (Restrict_paths c) = FilterCommand c
   \<and> versionConstraints (Restrict_paths c) = versionConstraints c
   \<and> Cluster (Restrict_paths c) = (if Cluster c = [] then DefaultClusterName else Cluster c)"
  by (simp add: Restrict_paths_def Let_def)

lemma Restrict_constraint_error:
  assumes "RequiredVersion c \<noteq> []" and "NewConstraint d (RequiredVersion c) = Inl err"
  shows "Restrict d c w
    = (Some (Wrap ''required_version has invalid format: '' err), Restrict_paths c, w)"
  using assms by (simp add: Restrict_def Let_def Restrict_paths_frame)

lemma Restrict_continues:
  assumes "RequiredVersion c = [] \<or> NewConstraint d (RequiredVersion c) = Inr cs"
  shows "\<exists>c7 opts.
      Cluster c7 = Cluster (Restrict_paths c)
    \<and> ServiceDefinitionPath c7 = ServiceDefinitionPath (Restrict_paths c)
    \<and> TaskDefinitionPath c7 = TaskDefinitionPath (Restrict_paths c)
    \<and> Plugins c7 = Plugins c
    \<and> Timeout c7 = (if Timeout c = None then Some DefaultTimeout else Timeout c)
    \<and> Restrict d c w =
        (case invoke CallLoadDefaultConfig (LoadDefaultConfig d opts) w of
           ((cfg, Some err), w1) \<Rightarrow>
             (Some (Wrap ''failed to load aws config: '' err), c7\<lparr>awsv2Config := cfg\<rparr>, w1)
         | ((cfg, None), w1) \<Rightarrow>
             (case setupPlugins d (c7\<lparr>awsv2Config := cfg\<rparr>) w1 of
                (Some err, c8, w2) \<Rightarrow> (Some (Wrap ''failed to setup plugins: '' err), c8, w2)
              | (None, c8, w2) \<Rightarrow>
                  (None, c8,
                   if FilterCommand c8 \<noteq> [] then
                     Log ''[WARNING] filter_command is deprecated. Use environment variable or CLI flag instead.'' w2
                   else w2)))"
proof -
  define c4 where "c4 = Restrict_paths c"
  define c5 where "c5 = (if RequiredVersion c4 \<noteq> [] then c4\<lparr>versionConstraints := Some cs\<rparr> else c4)"
  define c6 where "c6 = (if Timeout c5 = None then c5\<lparr>Timeout := Some DefaultTimeout\<rparr> else c5)"
  define c7 where "c7 = (if Region c6 = [] then c6\<lparr>Region := Getenv ''AWS_REGION'' w\<rparr> else c6)"
  define opts where "opts = (if length (awsv2ConfigLoadOptionsFunc w) = 0 then [WithRegion (Region c7)]
                           else awsv2ConfigLoadOptionsFunc w)"
  have rv: "RequiredVersion c4 = RequiredVersion c"
    by (simp add: c4_def Restrict_paths_frame)
  have parsed: "(if RequiredVersion c4 \<noteq> [] then
              (case NewConstraint d (RequiredVersion c4) of
                 Inl err \<Rightarrow> Inl (Wrap ''required_version has invalid format: '' err)
               | Inr constraints \<Rightarrow> Inr (c4\<lparr>versionConstraints := Some constraints\<rparr>))
            else Inr c4) = Inr c5"
    using assms by (auto simp: c5_def rv)
  have "Restrict d c w =
        (case invoke CallLoadDefaultConfig (LoadDefaultConfig d opts) w of
           ((cfg, Some err), w1) \<Rightarrow>
             (Some (Wrap ''failed to load aws config: '' err), c7\<lparr>awsv2Config := cfg\<rparr>, w1)
         | ((cfg, None), w1) \<Rightarrow>
             (case setupPlugins d (c7\<lparr>awsv2Config := cfg\<rparr>) w1 of
                (Some err, c8, w2) \<Rightarrow> (Some (Wrap ''failed to setup plugins: '' err), c8, w2)
              | (None, c8, w2) \<Rightarrow>
                  (None, c8,
                   if FilterCommand c8 \<noteq> [] then
                     Log ''[WARNING] filter_command is deprecated. Use environment variable or CLI flag instead.'' w2
                   else w2)))"
    unfolding Restrict_def Let_def c4_def [symmetric] parsed sum.case
      c6_def [symmetric] c7_def [symmetric] opts_def [symmetric] ..
  moreover have "Cluster c7 = Cluster (Restrict_paths c)"
    and "ServiceDefinitionPath c7 = ServiceDefinitionPath (Restrict_paths c)"
    and "TaskDefinitionPath c7 = TaskDefinitionPath (Restrict_paths c)"
    and "Plugins c7 = Plugins c"
    by (simp_all add: c7_def c6_def c5_def c4_def Restrict_paths_frame)
  moreover have "Timeout c7 = (if Timeout c = None then Some DefaultTimeout else Timeout c)"
    by (simp add: c7_def c6_def c5_def c4_def Restrict_paths_frame)
  ultimately show ?thesis by blast
qed

text \<open>The four ways out of \<open>Restrict\<close>.\<close>

lemma Restrict_cases:
  obtains
    (constraint) err where
      "RequiredVersion c \<noteq> []" and "NewConstraint d (RequiredVersion c) = Inl err"
      and "Restrict d c w
        = (Some (Wrap ''required_version has invalid format: '' err), Restrict_paths c, w)"
  | (client) c7 opts err w1 where
      "RequiredVersion c = [] \<or> (\<exists>cs. NewConstraint d (RequiredVersion c) = Inr cs)"
      and "invoke CallLoadDefaultConfig (LoadDefaultConfig d opts) w
        = ((awsv2Config c7, Some err), w1)"
      and "Restrict d c w = (Some (Wrap ''failed to load aws config: '' err), c7, w1)"
  | (plugins) c7 opts w1 err c8 w2 where
      "RequiredVersion c = [] \<or> (\<exists>cs. NewConstraint d (RequiredVersion c) = Inr cs)"
      and "invoke CallLoadDefaultConfig (LoadDefaultConfig d opts) w
        = ((awsv2Config c7, None), w1)"
      and "setupPlugins d c7 w1 = (Some err, c8, w2)"
      and "Restrict d c w = (Some (Wrap ''failed to setup plugins: '' err), c8, w2)"
  | (ok) c7 opts w1 c8 w2 where
      "RequiredVersion c = [] \<or> (\<exists>cs. NewConstraint d (RequiredVersion c) = Inr cs)"
      and "invoke CallLoadDefaultConfig (LoadDefaultConfig d opts) w
        = ((awsv2Config c7, None), w1)"
      and "Cluster c7 = Cluster (Restrict_paths c)"
      and "ServiceDefinitionPath c7 = ServiceDefinitionPath (Restrict_paths c)"
      and "TaskDefinitionPath c7 = TaskDefinitionPath (Restrict_paths c)"
      and "Plugins c7 = Plugins c"
      and "Timeout c7 = (if Timeout c = None then Some DefaultTimeout else Timeout c)"
      and "setupPlugins d c7 w1 = (None, c8, w2)"
      and "Restrict d c w =
        (None, c8,
         if FilterCommand c8 \<noteq> [] then
           Log ''[WARNING] filter_command is deprecated. Use environment variable or CLI flag instead.'' w2
         else w2)"
proof (cases "RequiredVersion c \<noteq> [] \<and> (\<exists>err. NewConstraint d (RequiredVersion c) = Inl err)")
  case True
  then obtain err where "RequiredVersion c \<noteq> []" and e: "NewConstraint d (RequiredVersion c) = Inl err"
    by blast
  then show ?thesis
    using constraint Restrict_constraint_error [of c d err w] by blast
next
  case False
  then obtain cs where parsed: "RequiredVersion c = [] \<or> NewConstraint d (RequiredVersion c) = Inr cs"
    by (cases "NewConstraint d (RequiredVersion c)") auto
  then have parsed': "RequiredVersion c = [] \<or> (\<exists>cs. NewConstraint d (RequiredVersion c) = Inr cs)"
    by blast
  from Restrict_continues [OF parsed, of w] obtain c7 opts where
    fields: "Cluster c7 = Cluster (Restrict_paths c)"
      "ServiceDefinitionPath c7 = ServiceDefinitionPath (Restrict_paths c)"
      "TaskDefinitionPath c7 = TaskDefinitionPath (Restrict_paths c)"
      "Plugins c7 = Plugins c"
      "Timeout c7 = (if Timeout c = None then Some DefaultTimeout else Timeout c)"
    and R: "Restrict d c w =
        (case invoke CallLoadDefaultConfig (LoadDefaultConfig d opts) w of
           ((cfg, Some err), w1) \<Rightarrow>
             (Some (Wrap ''failed to load aws config: '' err), c7\<lparr>awsv2Config := cfg\<rparr>, w1)
         | ((cfg, None), w1) \<Rightarrow>
             (case setupPlugins d (c7\<lparr>awsv2Config := cfg\<rparr>) w1 of
                (Some err, c8, w2) \<Rightarrow> (Some (Wrap ''failed to setup plugins: '' err), c8, w2)
              | (None, c8, w2) \<Rightarrow>
                  (None, c8,
                   if FilterCommand c8 \<noteq> [] then
                     Log ''[WARNING] filter_command is deprecated. Use environment variable or CLI flag instead.'' w2
                   else w2)))"
    by blast
  obtain cfg cerr w1 where I: "invoke CallLoadDefaultConfig (LoadDefaultConfig d opts) w = ((cfg, cerr), w1)"
    by (metis surj_pair)
  let ?c = "c7\<lparr>awsv2Config := cfg\<rparr>"
  have cfg: "awsv2Config ?c = cfg"
    by simp
  have fields': "Cluster ?c = Cluster (Restrict_paths c)"
      "ServiceDefinitionPath ?c = ServiceDefinitionPath (Restrict_paths c)"
      "TaskDefinitionPath ?c = TaskDefinitionPath (Restrict_paths c)"
      "Plugins ?c = Plugins c"
      "Timeout ?c = (if Timeout c = None then Some DefaultTimeout else Timeout c)"
    using fields by simp_all
  show ?thesis
  proof (cases cerr)
    case (Some err)
    have "Restrict d c w = (Some (Wrap ''failed to load aws config: '' err), ?c, w1)"
      by (simp add: R I Some)
    moreover have "invoke CallLoadDefaultConfig (LoadDefaultConfig d opts) w
        = ((awsv2Config ?c, Some err), w1)"
      unfolding I Some cfg ..
    ultimately show ?thesis
      using client parsed' by blast
  next
    case None
    have I': "invoke CallLoadDefaultConfig (LoadDefaultConfig d opts) w
        = ((awsv2Config ?c, None), w1)"
      unfolding I None cfg ..
    obtain perr c8 w2 where S: "setupPlugins d ?c w1 = (perr, c8, w2)"
      by (metis surj_pair)
    show ?thesis
    proof (cases perr)
      case (Some err)
      have "Restrict d c w = (Some (Wrap ''failed to setup plugins: '' err), c8, w2)"
        using S Some by (simp add: R I None)
      then show ?thesis
        using plugins [OF parsed' I'] S Some by blast
    next
      case None': None
      have "Restrict d c w =
        (None, c8,
         if FilterCommand c8 \<noteq> [] then
           Log ''[WARNING] filter_command is deprecated. Use environment variable or CLI flag instead.'' w2
         else w2)"
        using S None' by (simp add: R I None)
      then show ?thesis
        using ok [OF parsed' I' fields'] S None' by blast
    qed
  qed
qed




section \<open>Properties of Load\<close>

text \<open>
  C8. For a path whose extension is none of \<open>.yml\<close>, \<open>.yaml\<close>, \<open>.json\<close>
  and \<open>.jsonnet\<close>, \<open>Load\<close> returns a nil \<open>Config\<close> and the error
  \<open>unsupported config file extension: <ext>\<close>, and nothing has happened: no
  collaborator was called (no read, no evaluation, no decoding, no normalization), the
  loader and the world are as they were.
\<close>

theorem Load_unsupported_extension:
  assumes "filepath_Ext file \<notin> {''.yml'', ''.yaml'', ''.json'', ''.jsonnet''}"
  shows "Load d l file version w
    = ((None, Some (New (''unsupported config file extension: '' @ filepath_Ext file))), l, w)"
  using assms
  by (simp add: Load_def Load_decode_def ymlExt_def yamlExt_def jsonExt_def jsonnetExt_def)

theorem Load_unsupported_extension_witness:
  "filepath_Ext ''config.toml'' = ''.toml''
   \<and> Load scenario emptyLoader ''config.toml'' ''2.1.0'' emptyWorld
       = ((None, Some (New ''unsupported config file extension: .toml'')), emptyLoader, emptyWorld)"
  using Load_unsupported_extension [of "''config.toml''" scenario emptyLoader "''2.1.0''" emptyWorld]
  by (simp add: filepath_Ext_def IsPathSeparator_def)



lemma Load_shape:
  "(\<exists>conf. fst (Load d l file version w) = (Some conf, None))
   \<or> (\<exists>err. fst (Load d l file version w) = (None, Some err))"
proof (cases "Load_decode d l file w")
  case (Pair r w1)
  show ?thesis
  proof (cases r)
    case (Inl err)
    with Pair show ?thesis by (simp add: Load_def)
  next
    case (Inr conf)
    obtain err conf2 w2 where R: "Restrict d (conf\<lparr>dir := filepath_Dir file\<rparr>) w1 = (err, conf2, w2)"
      by (metis surj_pair)
    obtain verr w3 where V: "ValidateVersion d conf2 version w2 = (verr, w3)"
      by (metis surj_pair)
    show ?thesis
      using Pair Inr R V by (cases err; cases verr) (simp_all add: Load_def)
  qed
qed

lemma Load_decode_fails:
  "fst (Load_decode d l file w) = Inl err \<Longrightarrow> fst (Load d l file version w) = (None, Some err)"
  by (cases "Load_decode d l file w") (simp add: Load_def)

lemma Load_Restrict_fails:
  "Load_decode d l file w = (Inr conf, w1) \<Longrightarrow>
   fst (Restrict d (conf\<lparr>dir := filepath_Dir file\<rparr>) w1) = Some err \<Longrightarrow>
   fst (Load d l file version w) = (None, Some err)"
  by (cases "Restrict d (conf\<lparr>dir := filepath_Dir file\<rparr>) w1") (simp add: Load_def)

lemma Load_ValidateVersion_fails:
  "Load_decode d l file w = (Inr conf, w1) \<Longrightarrow>
   Restrict d (conf\<lparr>dir := filepath_Dir file\<rparr>) w1 = (None, conf2, w2) \<Longrightarrow>
   fst (ValidateVersion d conf2 version w2) = Some err \<Longrightarrow>
   fst (Load d l file version w) = (None, Some err)"
  by (cases "ValidateVersion d conf2 version w2") (simp add: Load_def)

lemma Load_succeeds:
  assumes "fst (Load d l file version w) = (Some conf, None)"
  shows "\<exists>c0 w1 w2. Load_decode d l file w = (Inr c0, w1)
    \<and> Restrict d (c0\<lparr>dir := filepath_Dir file\<rparr>) w1 = (None, conf, w2)
    \<and> fst (ValidateVersion d conf version w2) = None"
proof (cases "Load_decode d l file w")
  case (Pair r w1)
  show ?thesis
  proof (cases r)
    case (Inl err)
    with Pair assms show ?thesis by (simp add: Load_def)
  next
    case (Inr c0)
    obtain err conf2 w2 where R: "Restrict d (c0\<lparr>dir := filepath_Dir file\<rparr>) w1 = (err, conf2, w2)"
      by (metis surj_pair)
    obtain verr w3 where V: "ValidateVersion d conf2 version w2 = (verr, w3)"
      by (metis surj_pair)
    show ?thesis
      using Pair Inr R V assms by (cases err; cases verr) (simp_all add: Load_def)
  qed
qed

lemma Load_decode_succeeds:
  assumes "Load_decode d l file w = (Inr conf, w1)"
  shows "((filepath_Ext file = ''.yml'' \<or> filepath_Ext file = ''.yaml'')
      \<and> (\<exists>b. fst (ReadWithEnv d l file None w) = Inr b
            \<and> unmarshalYAML d b (zeroConfig\<lparr>path := file\<rparr>) file = (None, conf)))
    \<or> ((filepath_Ext file = ''.json'' \<or> filepath_Ext file = ''.jsonnet'')
      \<and> (\<exists>jsonStr b. fst (EvaluateFile d l file (environ w)) = Inr jsonStr
            \<and> fst (ReadWithEnvBytes d l jsonStr None
                  (snd (invoke (CallEvaluateFile file) (EvaluateFile d l file) w))) = Inr b
            \<and> unmarshalJSON d b (zeroConfig\<lparr>path := file\<rparr>) file = (None, conf)))"
proof -
  consider (yaml) "filepath_Ext file = ''.yml'' \<or> filepath_Ext file = ''.yaml''"
    | (json) "filepath_Ext file = ''.json'' \<or> filepath_Ext file = ''.jsonnet''"
    | (other) "filepath_Ext file \<notin> {''.yml'', ''.yaml'', ''.json'', ''.jsonnet''}"
    by blast
  then show ?thesis
  proof cases
    case yaml
    obtain r w0 where rd: "ReadWithEnv d l file None w = (r, w0)"
      by (metis surj_pair)
    from yaml assms rd show ?thesis
      by (auto simp: Load_decode_def ymlExt_def yamlExt_def
          split: sum.splits prod.splits option.splits)
  next
    case json
    obtain r w0 where ev: "invoke (CallEvaluateFile file) (EvaluateFile d l file) w = (r, w0)"
      by (metis surj_pair)
    then have r: "r = fst (EvaluateFile d l file (environ w))"
      by (simp add: invoke_world)
    show ?thesis
    proof (cases r)
      case (Inl err)
      with json assms ev show ?thesis
        by (auto simp: Load_decode_def ymlExt_def yamlExt_def jsonExt_def jsonnetExt_def)
    next
      case (Inr jsonStr)
      obtain r' w0' where rd: "ReadWithEnvBytes d l jsonStr None w0 = (r', w0')"
        by (metis surj_pair)
      have yj: "\<not> (filepath_Ext file = ''.yml'' \<or> filepath_Ext file = ''.yaml'')"
        using json by auto
      from json yj assms ev Inr rd r show ?thesis
        by (auto simp: Load_decode_def ymlExt_def yamlExt_def jsonExt_def jsonnetExt_def
            split: sum.splits prod.splits option.splits)
    qed
  next
    case other
    with assms show ?thesis
      by (simp add: Load_decode_def ymlExt_def yamlExt_def jsonExt_def jsonnetExt_def)
  qed
qed

lemma Restrict_succeeds:
  assumes "Restrict d c0 w0 = (None, conf2, w2)"
  shows "(RequiredVersion c0 = [] \<or> (\<exists>cs. NewConstraint d (RequiredVersion c0) = Inr cs))
    \<and> (\<exists>opts cfg. fst (LoadDefaultConfig d opts (environ w0)) = (cfg, None))
    \<and> (\<exists>c7 w1 w3. Plugins c7 = Plugins c0 \<and> setupPlugins d c7 w1 = (None, conf2, w3))"
proof (cases rule: Restrict_cases [where c = c0 and d = d and w = w0])
  case (constraint err)
  with assms show ?thesis by simp
next
  case (client c7 opts err w1)
  with assms show ?thesis by simp
next
  case (plugins c7 opts w1 err c8 w2)
  with assms show ?thesis by simp
next
  case (ok c7 opts w1 c8 w2')
  have "fst (LoadDefaultConfig d opts (environ w0)) = (awsv2Config c7, None)"
    using ok(2) by (simp add: invoke_world)
  moreover have "Plugins c7 = Plugins c0 \<and> setupPlugins d c7 w1 = (None, conf2, w2')"
    using ok(6,8,9) assms by simp
  ultimately show ?thesis
    using ok(1) by blast
qed

text \<open>
  C3. For every path, version, loader, world and collaborators, \<open>Load\<close> returns either
  a \<open>Config\<close> and a nil error, or a nil \<open>Config\<close> and an error, never a \<open>Config\<close>
  with an error. It returns the error, with a nil \<open>Config\<close>, when the document cannot
  be produced (the read, the evaluation or the decoding fails: \<open>Load_decode\<close>), when
  \<open>Restrict\<close> fails, and when \<open>ValidateVersion\<close> fails. It returns a \<open>Config\<close>
  only when all three succeeded, and those succeed only when every step of theirs did:
  the read and the decoding of a YAML document, or the evaluation, the read and the
  decoding of a jsonnet document; the parse of the constraint, the load of the client
  configuration and the plugin pipeline.
\<close>

theorem Load_all_or_nothing:
  "((\<exists>conf. fst (Load d l file version w) = (Some conf, None))
      \<or> (\<exists>err. fst (Load d l file version w) = (None, Some err)))
   \<and> (\<forall>err. fst (Load_decode d l file w) = Inl err
         \<longrightarrow> fst (Load d l file version w) = (None, Some err))
   \<and> (\<forall>conf w1 err.
         Load_decode d l file w = (Inr conf, w1)
         \<and> fst (Restrict d (conf\<lparr>dir := filepath_Dir file\<rparr>) w1) = Some err
         \<longrightarrow> fst (Load d l file version w) = (None, Some err))
   \<and> (\<forall>conf w1 conf2 w2 err.
         Load_decode d l file w = (Inr conf, w1)
         \<and> Restrict d (conf\<lparr>dir := filepath_Dir file\<rparr>) w1 = (None, conf2, w2)
         \<and> fst (ValidateVersion d conf2 version w2) = Some err
         \<longrightarrow> fst (Load d l file version w) = (None, Some err))
   \<and> (\<forall>conf. fst (Load d l file version w) = (Some conf, None)
         \<longrightarrow> (\<exists>c0 w1 w2. Load_decode d l file w = (Inr c0, w1)
                \<and> Restrict d (c0\<lparr>dir := filepath_Dir file\<rparr>) w1 = (None, conf, w2)
                \<and> fst (ValidateVersion d conf version w2) = None))
   \<and> (\<forall>conf w1. Load_decode d l file w = (Inr conf, w1)
         \<longrightarrow> ((filepath_Ext file = ''.yml'' \<or> filepath_Ext file = ''.yaml'')
              \<and> (\<exists>b. fst (ReadWithEnv d l file None w) = Inr b
                    \<and> unmarshalYAML d b (zeroConfig\<lparr>path := file\<rparr>) file = (None, conf)))
            \<or> ((filepath_Ext file = ''.json'' \<or> filepath_Ext file = ''.jsonnet'')
              \<and> (\<exists>jsonStr b. fst (EvaluateFile d l file (environ w)) = Inr jsonStr
                    \<and> fst (ReadWithEnvBytes d l jsonStr None
                          (snd (invoke (CallEvaluateFile file) (EvaluateFile d l file) w))) = Inr b
                    \<and> unmarshalJSON d b (zeroConfig\<lparr>path := file\<rparr>) file = (None, conf))))
   \<and> (\<forall>c0 w0 conf2 w2. Restrict d c0 w0 = (None, conf2, w2)
         \<longrightarrow> (RequiredVersion c0 = [] \<or> (\<exists>cs. NewConstraint d (RequiredVersion c0) = Inr cs))
            \<and> (\<exists>opts cfg. fst (LoadDefaultConfig d opts (environ w0)) = (cfg, None))
            \<and> (\<exists>c7 w1 w3. Plugins c7 = Plugins c0 \<and> setupPlugins d c7 w1 = (None, conf2, w3)))"
  using Load_shape [of d l "file" version w] Load_decode_fails [of d l "file" w _ version]
    Load_Restrict_fails [of d l "file" w _ _ _ version]
    Load_ValidateVersion_fails [of d l "file" w _ _ _ _ version]
    Load_succeeds [of d l "file" version w] Load_decode_succeeds [of d l "file" w]
    Restrict_succeeds [of d]
  by (intro conjI allI impI) blast+

theorem Load_all_or_nothing_witness:
  "fst (Load scenario emptyLoader ''ecspresso.jsonnet'' ''2.1.0'' emptyWorld)
     = (None, Some (Wrap ''failed to evaluate jsonnet file: '' (New ''must_env: AWS_REGION is not set'')))
   \<and> fst (Load malformedConstraint emptyLoader ''ecspresso.yml'' ''2.1.0'' emptyWorld)
     = (None, Some (Wrap ''required_version has invalid format: ''
                      (New ''Malformed constraint: two or later'')))
   \<and> fst (Load pinnedVersion emptyLoader ''ecspresso.yml'' ''1.9.0'' emptyWorld)
     = (None, Some (New ''version 1.9.0 does not satisfy constraints required_version: >= 2.0.0''))"
proof -
  let ?B = "Load_decode scenario emptyLoader ''ecspresso.jsonnet'' emptyWorld"
  let ?M = "Load_decode malformedConstraint emptyLoader ''ecspresso.yml'' emptyWorld"
  let ?P = "Load_decode pinnedVersion emptyLoader ''ecspresso.yml'' emptyWorld"
  let ?RP = "Restrict pinnedVersion ((projr (fst ?P))\<lparr>dir := filepath_Dir ''ecspresso.yml''\<rparr>) (snd ?P)"
  have evaluation: "fst ?B
      = Inl (Wrap ''failed to evaluate jsonnet file: '' (New ''must_env: AWS_REGION is not set''))"
    by code_simp
  have "\<not> isl (fst ?M)"
    by code_simp
  then have decodedM: "?M = (Inr (projr (fst ?M)), snd ?M)"
    by (cases "fst ?M") (simp_all add: prod_eq_iff)
  have constraint: "fst (Restrict malformedConstraint
        ((projr (fst ?M))\<lparr>dir := filepath_Dir ''ecspresso.yml''\<rparr>) (snd ?M))
      = Some (Wrap ''required_version has invalid format: '' (New ''Malformed constraint: two or later''))"
    by code_simp
  have "\<not> isl (fst ?P)"
    by code_simp
  then have decodedP: "?P = (Inr (projr (fst ?P)), snd ?P)"
    by (cases "fst ?P") (simp_all add: prod_eq_iff)
  have "fst ?RP = None"
    by code_simp
  then have normalizedP: "?RP = (None, fst (snd ?RP), snd (snd ?RP))"
    by (simp add: prod_eq_iff)
  have gate: "fst (ValidateVersion pinnedVersion (fst (snd ?RP)) ''1.9.0'' (snd (snd ?RP)))
      = Some (New ''version 1.9.0 does not satisfy constraints required_version: >= 2.0.0'')"
    by code_simp
  note B = Load_all_or_nothing [of scenario emptyLoader "''ecspresso.jsonnet''" "''2.1.0''" emptyWorld]
  note M = Load_all_or_nothing [of malformedConstraint emptyLoader "''ecspresso.yml''" "''2.1.0''" emptyWorld]
  note P = Load_all_or_nothing [of pinnedVersion emptyLoader "''ecspresso.yml''" "''1.9.0''" emptyWorld]
  from B [THEN conjunct2, THEN conjunct1, rule_format, OF evaluation]
    M [THEN conjunct2, THEN conjunct2, THEN conjunct1, rule_format, OF conjI [OF decodedM constraint]]
    P [THEN conjunct2, THEN conjunct2, THEN conjunct2, THEN conjunct1, rule_format,
      OF conjI [OF decodedP conjI [OF normalizedP gate]]]
  show ?thesis
    by simp
qed

lemma Load_decode_trace:
  "\<exists>evs. trace (snd (Load_decode d l file w)) = trace w @ evs
     \<and> (\<forall>p. CallSetup p \<notin> set evs) \<and> CallLoadDefaultConfig \<notin> set evs"
proof -
  consider (yaml) "filepath_Ext file = ymlExt \<or> filepath_Ext file = yamlExt"
    | (json) "\<not> (filepath_Ext file = ymlExt \<or> filepath_Ext file = yamlExt)"
        "filepath_Ext file = jsonExt \<or> filepath_Ext file = jsonnetExt"
    | (other) "\<not> (filepath_Ext file = ymlExt \<or> filepath_Ext file = yamlExt)"
        "\<not> (filepath_Ext file = jsonExt \<or> filepath_Ext file = jsonnetExt)"
    by blast
  then show ?thesis
  proof cases
    case yaml
    then show ?thesis
      by (simp add: Load_decode_def ReadWithEnv_nil invoke_world emit_def
          split: sum.splits prod.splits option.splits)
  next
    case json
    then show ?thesis
      by (simp add: Load_decode_def ReadWithEnvBytes_nil invoke_world emit_def
          split: sum.splits prod.splits option.splits)
  next
    case other
    then show ?thesis
      by (simp add: Load_decode_def)
  qed
qed

text \<open>
  C4. When the decoded \<open>Config\<close> has a non-empty \<open>required_version\<close> that
  \<open>NewConstraint\<close> does not parse, \<open>Restrict\<close> returns the parser's error wrapped as
  \<open>required_version has invalid format: ...\<close> with the world untouched, and \<open>Load\<close>
  returns that error with a nil \<open>Config\<close>: the world is as the decoding left it, and
  the calls recorded since \<open>Load\<close> began hold no \<open>Setup\<close> of any plugin and no load
  of the client configuration.
\<close>

theorem Load_invalid_constraint:
  assumes "Load_decode d l file w = (Inr conf, w1)"
    and "RequiredVersion conf \<noteq> []"
    and "NewConstraint d (RequiredVersion conf) = Inl err"
  shows "Restrict d (conf\<lparr>dir := filepath_Dir file\<rparr>) w1
      = (Some (Wrap ''required_version has invalid format: '' err),
         Restrict_paths (conf\<lparr>dir := filepath_Dir file\<rparr>), w1)
    \<and> Load d l file version w
      = ((None, Some (Wrap ''required_version has invalid format: '' err)), l, w1)
    \<and> (\<exists>evs. trace (snd (snd (Load d l file version w))) = trace w @ evs
          \<and> (\<forall>p. CallSetup p \<notin> set evs) \<and> CallLoadDefaultConfig \<notin> set evs)"
proof -
  have R: "Restrict d (conf\<lparr>dir := filepath_Dir file\<rparr>) w1
      = (Some (Wrap ''required_version has invalid format: '' err),
         Restrict_paths (conf\<lparr>dir := filepath_Dir file\<rparr>), w1)"
    using assms(2,3) by (intro Restrict_constraint_error) simp_all
  have L: "Load d l file version w
      = ((None, Some (Wrap ''required_version has invalid format: '' err)), l, w1)"
    by (simp add: Load_def assms(1) R)
  have "\<exists>evs. trace w1 = trace w @ evs
          \<and> (\<forall>p. CallSetup p \<notin> set evs) \<and> CallLoadDefaultConfig \<notin> set evs"
    using Load_decode_trace [of d l "file" w] assms(1) by simp
  with R L show ?thesis by simp
qed

theorem Load_invalid_constraint_witness:
  "Load malformedConstraint emptyLoader ''ecspresso.yml'' ''2.1.0'' emptyWorld
     = ((None, Some (Wrap ''required_version has invalid format: ''
                       (New ''Malformed constraint: two or later''))),
        emptyLoader,
        snd (Load_decode malformedConstraint emptyLoader ''ecspresso.yml'' emptyWorld))
   \<and> trace (snd (Load_decode malformedConstraint emptyLoader ''ecspresso.yml'' emptyWorld))
     = [CallReadWithEnv ''ecspresso.yml'', CallUnmarshalYAML ''ecspresso.yml'']"
proof -
  let ?M = "Load_decode malformedConstraint emptyLoader ''ecspresso.yml'' emptyWorld"
  have "\<not> isl (fst ?M)"
    by code_simp
  then have decoded: "?M = (Inr (projr (fst ?M)), snd ?M)"
    by (cases "fst ?M") (simp_all add: prod_eq_iff)
  have required: "RequiredVersion (projr (fst ?M)) = ''two or later''"
    by code_simp
  have refused: "NewConstraint malformedConstraint ''two or later''
      = Inl (New ''Malformed constraint: two or later'')"
    by code_simp
  have calls: "trace (snd ?M) = [CallReadWithEnv ''ecspresso.yml'', CallUnmarshalYAML ''ecspresso.yml'']"
    by code_simp
  show ?thesis
    using Load_invalid_constraint [of malformedConstraint emptyLoader "''ecspresso.yml''" emptyWorld
        "projr (fst ?M)" "snd ?M" "New ''Malformed constraint: two or later''" "''2.1.0''"]
      decoded required refused calls
    by simp
qed

section \<open>Properties of the plugin pipeline\<close>

lemma Restrict_errors:
  assumes "fst (Restrict d c0 w0) = Some e"
  shows "(\<exists>err. e = Wrap ''required_version has invalid format: '' err)
    \<or> (\<exists>err. e = Wrap ''failed to load aws config: '' err)
    \<or> (\<exists>err c7 w1. e = Wrap ''failed to setup plugins: '' err
          \<and> fst (setupPlugins d c7 w1) = Some err)"
proof (cases rule: Restrict_cases [where c = c0 and d = d and w = w0])
  case (constraint err)
  with assms show ?thesis by auto
next
  case (client c7 opts err w1)
  with assms show ?thesis by auto
next
  case (plugins c7 opts w1 err c8 w2)
  with assms have "e = Wrap ''failed to setup plugins: '' err \<and> fst (setupPlugins d c7 w1) = Some err"
    by simp
  then show ?thesis by blast
next
  case (ok c7 opts w1 c8 w2)
  with assms show ?thesis by simp
qed

text \<open>
  C9. The pipeline's list is one plugin of each default name, with no configuration, in
  the order of the names, and then the declared plugins in their order. \<open>Setup\<close> is
  called on them in that order, each with the \<open>Config\<close> as the plugins before it
  left it. When all succeed every plugin has been called, once. When one fails, the
  plugins before it had succeeded, it is the last one called, the pipeline returns
  its error as it is, and \<open>Restrict\<close> returns that error behind
  \<open>failed to setup plugins: \<close>: the message is the plugin's own after that prefix,
  so it names the plugin where the plugin's own message does.
\<close>

theorem setupPlugins_pipeline:
  "pluginList d c =
     map (\<lambda>name. \<lparr>Name = name, PluginConfig = []\<rparr>) (defaultPluginNames d) @ Plugins c
   \<and> (\<forall>c' w'. setupPlugins d c w = (None, c', w')
         \<longrightarrow> trace w' = trace w @ map CallSetup (pluginList d c))
   \<and> (\<forall>err c' w'. setupPlugins d c w = (Some err, c', w')
         \<longrightarrow> (\<exists>called p rest c1 w1.
                pluginList d c = called @ p # rest
                \<and> setupLoop d called c w = (None, c1, w1)
                \<and> Setup d p c1 (environ w1) = ((Some err, c'), environ w')
                \<and> trace w' = trace w @ map CallSetup (called @ [p])))
   \<and> (\<forall>e c0 w0. fst (Restrict d c0 w0) = Some e
         \<longrightarrow> (\<exists>err. e = Wrap ''required_version has invalid format: '' err)
            \<or> (\<exists>err. e = Wrap ''failed to load aws config: '' err)
            \<or> (\<exists>err c7 w1. e = Wrap ''failed to setup plugins: '' err
                  \<and> fst (setupPlugins d c7 w1) = Some err))
   \<and> (\<forall>err. Error (Wrap ''failed to setup plugins: '' err)
           = ''failed to setup plugins: '' @ Error err)
   \<and> (\<forall>err p. sublist (Name p) (Error err)
         \<longrightarrow> sublist (Name p) (Error (Wrap ''failed to setup plugins: '' err)))"
proof -
  have "\<forall>c' w'. setupPlugins d c w = (None, c', w')
         \<longrightarrow> trace w' = trace w @ map CallSetup (pluginList d c)"
    unfolding setupPlugins_def using setupLoop_succeeds by blast
  moreover have "\<forall>err c' w'. setupPlugins d c w = (Some err, c', w')
         \<longrightarrow> (\<exists>called p rest c1 w1.
                pluginList d c = called @ p # rest
                \<and> setupLoop d called c w = (None, c1, w1)
                \<and> Setup d p c1 (environ w1) = ((Some err, c'), environ w')
                \<and> trace w' = trace w @ map CallSetup (called @ [p]))"
    unfolding setupPlugins_def using setupLoop_fails by blast
  moreover have "\<forall>e c0 w0. fst (Restrict d c0 w0) = Some e
         \<longrightarrow> (\<exists>err. e = Wrap ''required_version has invalid format: '' err)
            \<or> (\<exists>err. e = Wrap ''failed to load aws config: '' err)
            \<or> (\<exists>err c7 w1. e = Wrap ''failed to setup plugins: '' err
                  \<and> fst (setupPlugins d c7 w1) = Some err)"
    using Restrict_errors by blast
  moreover have "\<forall>err p. sublist (Name p) (Error err)
         \<longrightarrow> sublist (Name p) (Error (Wrap ''failed to setup plugins: '' err))"
    unfolding Error.simps using sublist_append_leftI sublist_order.order.trans by blast
  moreover have "\<forall>err. Error (Wrap ''failed to setup plugins: '' err)
           = ''failed to setup plugins: '' @ Error err"
    by simp
  ultimately show ?thesis
    by (simp add: pluginList_def)
qed

theorem setupPlugins_pipeline_witness:
  "pluginList defaultPlugins (zeroConfig\<lparr>Plugins := [\<lparr>Name = ''cloudformation'', PluginConfig = []\<rparr>,
                                                    \<lparr>Name = ''tfstate'', PluginConfig = []\<rparr>]\<rparr>)
     = [\<lparr>Name = ''tfstate'', PluginConfig = []\<rparr>,
        \<lparr>Name = ''cloudformation'', PluginConfig = []\<rparr>,
        \<lparr>Name = ''tfstate'', PluginConfig = []\<rparr>]
   \<and> fst (setupPlugins defaultPlugins
         (zeroConfig\<lparr>Plugins := [\<lparr>Name = ''cloudformation'', PluginConfig = []\<rparr>,
                                 \<lparr>Name = ''tfstate'', PluginConfig = []\<rparr>]\<rparr>) emptyWorld)
     = Some (New ''plugin cloudformation is not available'')
   \<and> trace (snd (snd (setupPlugins defaultPlugins
         (zeroConfig\<lparr>Plugins := [\<lparr>Name = ''cloudformation'', PluginConfig = []\<rparr>,
                                 \<lparr>Name = ''tfstate'', PluginConfig = []\<rparr>]\<rparr>) emptyWorld)))
     = [CallSetup \<lparr>Name = ''tfstate'', PluginConfig = []\<rparr>,
        CallSetup \<lparr>Name = ''cloudformation'', PluginConfig = []\<rparr>]
   \<and> sublist ''cloudformation''
        (Error (Wrap ''failed to setup plugins: '' (New ''plugin cloudformation is not available'')))"
proof -
  let ?c = "zeroConfig\<lparr>Plugins := [\<lparr>Name = ''cloudformation'', PluginConfig = []\<rparr>,
                                   \<lparr>Name = ''tfstate'', PluginConfig = []\<rparr>]\<rparr> :: string Config"
  let ?S = "setupPlugins defaultPlugins ?c emptyWorld"
  note T = setupPlugins_pipeline [of defaultPlugins ?c emptyWorld]
  have names: "defaultPluginNames defaultPlugins = [''tfstate'']"
    and declared: "Plugins ?c = [\<lparr>Name = ''cloudformation'', PluginConfig = []\<rparr>,
                                \<lparr>Name = ''tfstate'', PluginConfig = []\<rparr>]"
    by code_simp+
  have failed: "fst ?S = Some (New ''plugin cloudformation is not available'')"
    by code_simp
  then have S: "?S = (Some (New ''plugin cloudformation is not available''), fst (snd ?S), snd (snd ?S))"
    by (simp add: prod_eq_iff)
  have calls: "trace (snd (snd ?S))
      = [CallSetup \<lparr>Name = ''tfstate'', PluginConfig = []\<rparr>,
         CallSetup \<lparr>Name = ''cloudformation'', PluginConfig = []\<rparr>]"
    by code_simp
  have named: "sublist ''cloudformation'' (Error (New ''plugin cloudformation is not available''))"
    by code_simp
  from T [THEN conjunct1] names declared
  have "pluginList defaultPlugins ?c
     = [\<lparr>Name = ''tfstate'', PluginConfig = []\<rparr>,
        \<lparr>Name = ''cloudformation'', PluginConfig = []\<rparr>,
        \<lparr>Name = ''tfstate'', PluginConfig = []\<rparr>]"
    by simp
  moreover from T [THEN conjunct2, THEN conjunct2, THEN conjunct2, THEN conjunct2, THEN conjunct2,
      rule_format, of "\<lparr>Name = ''cloudformation'', PluginConfig = []\<rparr>"
        "New ''plugin cloudformation is not available''"] named
  have "sublist ''cloudformation''
        (Error (Wrap ''failed to setup plugins: '' (New ''plugin cloudformation is not available'')))"
    by simp
  ultimately show ?thesis
    using failed calls by simp
qed

text \<open>
  The claim as it is written fails where a plugin's own error does not name it: the
  pipeline and \<open>Restrict\<close> add no name.
\<close>

theorem setupPlugins_error_without_name:
  "fst (Restrict refusedConnection (zeroConfig\<lparr>Plugins := [\<lparr>Name = ''tfstate'', PluginConfig = []\<rparr>]\<rparr>)
        emptyWorld)
     = Some (Wrap ''failed to setup plugins: '' (New ''connection refused''))
   \<and> trace (snd (snd (Restrict refusedConnection
        (zeroConfig\<lparr>Plugins := [\<lparr>Name = ''tfstate'', PluginConfig = []\<rparr>]\<rparr>) emptyWorld)))
     = [CallLoadDefaultConfig, CallSetup \<lparr>Name = ''tfstate'', PluginConfig = []\<rparr>]
   \<and> Error (Wrap ''failed to setup plugins: '' (New ''connection refused''))
     = ''failed to setup plugins: connection refused''
   \<and> \<not> sublist ''tfstate'' ''failed to setup plugins: connection refused''"
  by code_simp

section \<open>Properties of normalization\<close>

lemma setupLoop_field_of:
  assumes "\<And>p c e. p \<in> set plugins \<Longrightarrow> g (snd (fst (Setup d p c e))) = g c"
  shows "g (fst (snd (setupLoop d plugins c w))) = g c"
  using assms
proof (induction plugins arbitrary: c w)
  case Nil
  show ?case by simp
next
  case (Cons p plugins)
  have here: "g (snd (fst (Setup d p c (environ w)))) = g c"
    using Cons.prems [of p c "environ w"] by simp
  have rest: "g (fst (snd (setupLoop d plugins c' w'))) = g c'" for c' w'
    using Cons.IH [of c' w'] Cons.prems by simp
  show ?case
    unfolding setupLoop_Cons using here rest
    by (cases "fst (fst (Setup d p c (environ w)))") simp_all
qed

lemma Restrict_field:
  assumes frame: "\<And>p c0 e. p \<in> set (pluginList d c) \<Longrightarrow> g (snd (fst (Setup d p c0 e))) = g c0"
    and ok: "Restrict d c w = (None, c', w')"
  shows "\<exists>c7. g c' = g c7
    \<and> Cluster c7 = Cluster (Restrict_paths c)
    \<and> ServiceDefinitionPath c7 = ServiceDefinitionPath (Restrict_paths c)
    \<and> TaskDefinitionPath c7 = TaskDefinitionPath (Restrict_paths c)
    \<and> Timeout c7 = (if Timeout c = None then Some DefaultTimeout else Timeout c)"
proof (cases rule: Restrict_cases [where c = c and d = d and w = w])
  case (constraint err)
  with ok show ?thesis by simp
next
  case (client c7 opts err w1)
  with ok show ?thesis by simp
next
  case (plugins c7 opts w1 err c8 w2)
  with ok show ?thesis by simp
next
  case (ok c7 opts w1 c8 w2)
  have same: "pluginList d c7 = pluginList d c"
    using ok(6) by (simp add: pluginList_def)
  have "g (fst (snd (setupLoop d (pluginList d c7) c7 w1))) = g c7"
    by (rule setupLoop_field_of) (simp add: same frame)
  with ok(8) have "g c8 = g c7"
    by (simp add: setupPlugins_def)
  moreover have "c' = c8"
    using ok(9) \<open>Restrict d c w = (None, c', w')\<close> by simp
  ultimately show ?thesis
    using ok(3,4,5,7) by blast
qed

text \<open>
  C7. After a successful \<open>Restrict\<close> in which no plugin of the pipeline rewrites
  \<open>Cluster\<close> or \<open>Timeout\<close> (the plugins run after the defaults are set, on the same
  \<open>Config\<close>), \<open>Cluster\<close> is not empty: it is \<open>default\<close> when it was empty and
  is unchanged otherwise; and \<open>Timeout\<close> is not nil: it is ten minutes (in
  nanoseconds) when it was nil and is unchanged otherwise.
\<close>

theorem Restrict_defaults:
  assumes "\<And>p c0 e. p \<in> set (pluginList d c) \<Longrightarrow>
             Cluster (snd (fst (Setup d p c0 e))) = Cluster c0
             \<and> Timeout (snd (fst (Setup d p c0 e))) = Timeout c0"
    and "Restrict d c w = (None, c', w')"
  shows "Cluster c' = (if Cluster c = [] then ''default'' else Cluster c)
    \<and> Cluster c' \<noteq> []
    \<and> Timeout c' = (if Timeout c = None then Some (10 * 60 * 1000000000) else Timeout c)
    \<and> Timeout c' \<noteq> None"
proof -
  have "Cluster c' = Cluster (Restrict_paths c)
    \<and> Timeout c' = (if Timeout c = None then Some DefaultTimeout else Timeout c)"
    using Restrict_field [of d c "\<lambda>c. (Cluster c, Timeout c)" w c' w'] assms
    by auto
  then show ?thesis
    by (simp add: Restrict_paths_frame DefaultClusterName_def DefaultTimeout_def time_Minute_def)
qed

theorem Restrict_defaults_witness:
  "fst (Restrict scenario
         (zeroConfig\<lparr>Region := ''us-east-1'', Service := ''test'',
                     Plugins := [\<lparr>Name = ''tfstate'', PluginConfig = []\<rparr>]\<rparr>) emptyWorld) = None
   \<and> Cluster (fst (snd (Restrict scenario
         (zeroConfig\<lparr>Region := ''us-east-1'', Service := ''test'',
                     Plugins := [\<lparr>Name = ''tfstate'', PluginConfig = []\<rparr>]\<rparr>) emptyWorld)))
     = ''default''
   \<and> Timeout (fst (snd (Restrict scenario
         (zeroConfig\<lparr>Region := ''us-east-1'', Service := ''test'',
                     Plugins := [\<lparr>Name = ''tfstate'', PluginConfig = []\<rparr>]\<rparr>) emptyWorld)))
     = Some 600000000000"
proof -
  let ?c = "zeroConfig\<lparr>Region := ''us-east-1'', Service := ''test'',
                       Plugins := [\<lparr>Name = ''tfstate'', PluginConfig = []\<rparr>]\<rparr> :: string Config"
  let ?R = "Restrict scenario ?c emptyWorld"
  have frame: "Cluster (snd (fst (Setup scenario p c0 e))) = Cluster c0
             \<and> Timeout (snd (fst (Setup scenario p c0 e))) = Timeout c0" for p c0 e
    by (simp add: scenario_def)
  have succeeded: "fst ?R = None"
    by code_simp
  then have R: "?R = (None, fst (snd ?R), snd (snd ?R))"
    by (simp add: prod_eq_iff)
  have before: "Cluster ?c = []" "Timeout ?c = None"
    by (simp_all add: zeroConfig_def)
  from Restrict_defaults [of scenario ?c emptyWorld "fst (snd ?R)" "snd (snd ?R)", OF frame R]
    before succeeded
  show ?thesis
    by simp
qed

text \<open>
  The claim as it is written fails where a plugin rewrites the two fields, which the
  pipeline lets it do: \<open>Setup\<close> is given the \<open>Config\<close> after the defaults are set.
\<close>

theorem Restrict_plugin_rewrites_defaults:
  "fst (Restrict rewritingPlugin
         (zeroConfig\<lparr>Plugins := [\<lparr>Name = ''tfstate'', PluginConfig = []\<rparr>]\<rparr>) emptyWorld) = None
   \<and> Cluster (fst (snd (Restrict rewritingPlugin
         (zeroConfig\<lparr>Plugins := [\<lparr>Name = ''tfstate'', PluginConfig = []\<rparr>]\<rparr>) emptyWorld))) = []
   \<and> Timeout (fst (snd (Restrict rewritingPlugin
         (zeroConfig\<lparr>Plugins := [\<lparr>Name = ''tfstate'', PluginConfig = []\<rparr>]\<rparr>) emptyWorld))) = None"
  by code_simp

section \<open>Properties of the definition paths\<close>

lemma backtrack_ge: "dotdot \<le> n \<Longrightarrow> dotdot \<le> backtrack out dotdot n"
proof (induction out dotdot n rule: backtrack.induct)
  case (1 out dotdot n)
  show ?case
  proof (cases "dotdot < n \<and> \<not> IsPathSeparator (out ! n)")
    case True
    then have "dotdot \<le> n - 1" by auto
    with 1 True show ?thesis
      by (subst backtrack.simps) simp
  next
    case False
    with 1 show ?thesis
      by (subst backtrack.simps) auto
  qed
qed

lemma cleanStep_rooted:
  assumes "out \<noteq> []" and "hd out = CHR ''/''"
    and "cleanStep True c rest out 1 = (rest', out', dotdot')"
  shows "out' \<noteq> [] \<and> hd out' = CHR ''/'' \<and> dotdot' = 1"
proof (cases "1 < length out")
  case True
  then have "1 \<le> backtrack out 1 (length out - 1)"
    by (intro backtrack_ge) simp
  then have "take (backtrack out 1 (length out - 1)) out \<noteq> []
      \<and> hd (take (backtrack out 1 (length out - 1)) out) = hd out"
    using assms(1) by (cases out) (auto simp: take_Cons')
  with assms show ?thesis
    by (auto simp: cleanStep_def split: if_splits)
next
  case False
  with assms show ?thesis
    by (auto simp: cleanStep_def split: if_splits)
qed

lemma cleanLoop_rooted:
  "out \<noteq> [] \<Longrightarrow> hd out = CHR ''/'' \<Longrightarrow>
   cleanLoop True p out 1 \<noteq> [] \<and> hd (cleanLoop True p out 1) = CHR ''/''"
proof (induction "length p" arbitrary: p out rule: less_induct)
  case less
  show ?case
  proof (cases p)
    case Nil
    with less.prems show ?thesis by simp
  next
    case (Cons c rest)
    obtain rest' out' dotdot' where step: "cleanStep True c rest out 1 = (rest', out', dotdot')"
      by (metis surj_pair)
    from cleanStep_rooted [OF less.prems step]
    have inv: "out' \<noteq> []" "hd out' = CHR ''/''" "dotdot' = 1"
      by simp_all
    have "length rest' < length p"
      using cleanStep_shorter [of True c rest out 1] step Cons by simp
    moreover have "cleanLoop True (c # rest) out 1 = cleanLoop True rest' out' 1"
      by (simp only: cleanLoop.simps step prod.case inv(3))
    ultimately show ?thesis
      using less.hyps [OF _ inv(1,2), of rest'] Cons by simp
  qed
qed

lemma Clean_IsAbs: "filepath_IsAbs p \<Longrightarrow> filepath_IsAbs (Clean p)"
proof -
  assume "filepath_IsAbs p"
  then obtain rest where p: "p = CHR ''/'' # rest"
    by (cases p) (simp_all add: filepath_IsAbs_def)
  have "cleanLoop True rest ''/'' 1 \<noteq> [] \<and> hd (cleanLoop True rest ''/'' 1) = CHR ''/''"
    by (rule cleanLoop_rooted) simp_all
  then show ?thesis
    by (cases "cleanLoop True rest ''/'' 1")
      (simp_all add: Clean_def p IsPathSeparator_def filepath_IsAbs_def)
qed

lemma Join_IsAbs: "filepath_IsAbs base \<Longrightarrow> filepath_IsAbs (filepath_Join [base, p])"
proof -
  assume abs: "filepath_IsAbs base"
  then have "base \<noteq> []"
    by (auto simp: filepath_IsAbs_def)
  moreover have "filepath_IsAbs (base @ ''/'' @ p)"
    using abs by (cases base) (simp_all add: filepath_IsAbs_def)
  ultimately show ?thesis
    by (simp add: Clean_IsAbs)
qed

lemma Restrict_paths_fields:
  "dir (Restrict_paths c) = (if dir c = [] then ''.'' else dir c)
   \<and> ServiceDefinitionPath (Restrict_paths c)
      = (if ServiceDefinitionPath c \<noteq> [] \<and> \<not> filepath_IsAbs (ServiceDefinitionPath c)
         then filepath_Join [if dir c = [] then ''.'' else dir c, ServiceDefinitionPath c]
         else ServiceDefinitionPath c)
   \<and> TaskDefinitionPath (Restrict_paths c)
      = (if TaskDefinitionPath c \<noteq> [] \<and> \<not> filepath_IsAbs (TaskDefinitionPath c)
         then filepath_Join [if dir c = [] then ''.'' else dir c, TaskDefinitionPath c]
         else TaskDefinitionPath c)"
  by (simp add: Restrict_paths_def Let_def)

lemma Restrict_paths_settled:
  assumes "ServiceDefinitionPath c = [] \<or> filepath_IsAbs (ServiceDefinitionPath c)"
    and "TaskDefinitionPath c = [] \<or> filepath_IsAbs (TaskDefinitionPath c)"
    and "Cluster c \<noteq> []" and "dir c \<noteq> []"
  shows "Restrict_paths c = c"
  using assms by (auto simp: Restrict_paths_def Let_def)

lemma Restrict_paths_twice:
  assumes "filepath_IsAbs (dir c)
    \<or> ((ServiceDefinitionPath c = [] \<or> filepath_IsAbs (ServiceDefinitionPath c))
       \<and> (TaskDefinitionPath c = [] \<or> filepath_IsAbs (TaskDefinitionPath c)))"
  shows "Restrict_paths (Restrict_paths c) = Restrict_paths c"
proof (rule Restrict_paths_settled)
  show "Cluster (Restrict_paths c) \<noteq> []"
    by (simp add: Restrict_paths_frame DefaultClusterName_def)
  show "dir (Restrict_paths c) \<noteq> []"
    by (simp add: Restrict_paths_fields)
  have joined: "filepath_IsAbs (filepath_Join [if dir c = [] then ''.'' else dir c, p])"
    if "filepath_IsAbs (dir c)" for p
    using that Join_IsAbs [of "dir c" p] by (auto simp: filepath_IsAbs_def)
  show "ServiceDefinitionPath (Restrict_paths c) = []
      \<or> filepath_IsAbs (ServiceDefinitionPath (Restrict_paths c))"
    using assms joined by (auto simp: Restrict_paths_fields)
  show "TaskDefinitionPath (Restrict_paths c) = []
      \<or> filepath_IsAbs (TaskDefinitionPath (Restrict_paths c))"
    using assms joined by (auto simp: Restrict_paths_fields)
qed

text \<open>
  C5. A non-empty relative \<open>service_definition\<close> or \<open>task_definition\<close> path becomes
  \<open>filepath.Join\<close> of the \<open>Config\<close>'s directory (\<open>.\<close> when that is empty) and
  the path, which is an absolute path when the directory is absolute. An absolute path
  and an empty path are left as they are. When the directory is absolute, or both paths
  are absolute or empty, the step on its own result changes nothing. On a successful
  \<open>Restrict\<close> in which no plugin of the pipeline rewrites the two paths, the
  \<open>Config\<close> holds the paths so resolved.
\<close>

theorem Restrict_resolves_paths:
  "(ServiceDefinitionPath c \<noteq> [] \<and> \<not> filepath_IsAbs (ServiceDefinitionPath c) \<longrightarrow>
      ServiceDefinitionPath (Restrict_paths c)
        = filepath_Join [if dir c = [] then ''.'' else dir c, ServiceDefinitionPath c]
      \<and> (filepath_IsAbs (dir c) \<longrightarrow> filepath_IsAbs (ServiceDefinitionPath (Restrict_paths c))))
   \<and> (TaskDefinitionPath c \<noteq> [] \<and> \<not> filepath_IsAbs (TaskDefinitionPath c) \<longrightarrow>
      TaskDefinitionPath (Restrict_paths c)
        = filepath_Join [if dir c = [] then ''.'' else dir c, TaskDefinitionPath c]
      \<and> (filepath_IsAbs (dir c) \<longrightarrow> filepath_IsAbs (TaskDefinitionPath (Restrict_paths c))))
   \<and> (ServiceDefinitionPath c = [] \<or> filepath_IsAbs (ServiceDefinitionPath c) \<longrightarrow>
      ServiceDefinitionPath (Restrict_paths c) = ServiceDefinitionPath c)
   \<and> (TaskDefinitionPath c = [] \<or> filepath_IsAbs (TaskDefinitionPath c) \<longrightarrow>
      TaskDefinitionPath (Restrict_paths c) = TaskDefinitionPath c)
   \<and> (filepath_IsAbs (dir c)
        \<or> ((ServiceDefinitionPath c = [] \<or> filepath_IsAbs (ServiceDefinitionPath c))
           \<and> (TaskDefinitionPath c = [] \<or> filepath_IsAbs (TaskDefinitionPath c))) \<longrightarrow>
      Restrict_paths (Restrict_paths c) = Restrict_paths c)
   \<and> (\<forall>c' w'.
        (\<forall>p c0 e. p \<in> set (pluginList d c) \<longrightarrow>
            ServiceDefinitionPath (snd (fst (Setup d p c0 e))) = ServiceDefinitionPath c0
            \<and> TaskDefinitionPath (snd (fst (Setup d p c0 e))) = TaskDefinitionPath c0)
        \<and> Restrict d c w = (None, c', w') \<longrightarrow>
        ServiceDefinitionPath c' = ServiceDefinitionPath (Restrict_paths c)
        \<and> TaskDefinitionPath c' = TaskDefinitionPath (Restrict_paths c))"
proof -
  have joined: "filepath_IsAbs (filepath_Join [if dir c = [] then ''.'' else dir c, p])"
    if "filepath_IsAbs (dir c)" for p
    using that Join_IsAbs [of "dir c" p] by (auto simp: filepath_IsAbs_def)
  have service: "ServiceDefinitionPath c \<noteq> [] \<and> \<not> filepath_IsAbs (ServiceDefinitionPath c) \<longrightarrow>
      ServiceDefinitionPath (Restrict_paths c)
        = filepath_Join [if dir c = [] then ''.'' else dir c, ServiceDefinitionPath c]
      \<and> (filepath_IsAbs (dir c) \<longrightarrow> filepath_IsAbs (ServiceDefinitionPath (Restrict_paths c)))"
    using joined by (simp add: Restrict_paths_fields)
  have task: "TaskDefinitionPath c \<noteq> [] \<and> \<not> filepath_IsAbs (TaskDefinitionPath c) \<longrightarrow>
      TaskDefinitionPath (Restrict_paths c)
        = filepath_Join [if dir c = [] then ''.'' else dir c, TaskDefinitionPath c]
      \<and> (filepath_IsAbs (dir c) \<longrightarrow> filepath_IsAbs (TaskDefinitionPath (Restrict_paths c)))"
    using joined by (simp add: Restrict_paths_fields)
  have kept: "(ServiceDefinitionPath c = [] \<or> filepath_IsAbs (ServiceDefinitionPath c) \<longrightarrow>
      ServiceDefinitionPath (Restrict_paths c) = ServiceDefinitionPath c)
   \<and> (TaskDefinitionPath c = [] \<or> filepath_IsAbs (TaskDefinitionPath c) \<longrightarrow>
      TaskDefinitionPath (Restrict_paths c) = TaskDefinitionPath c)"
    by (auto simp: Restrict_paths_fields)
  have twice: "filepath_IsAbs (dir c)
        \<or> ((ServiceDefinitionPath c = [] \<or> filepath_IsAbs (ServiceDefinitionPath c))
           \<and> (TaskDefinitionPath c = [] \<or> filepath_IsAbs (TaskDefinitionPath c))) \<longrightarrow>
      Restrict_paths (Restrict_paths c) = Restrict_paths c"
    using Restrict_paths_twice [of c] by blast
  have whole: "ServiceDefinitionPath c' = ServiceDefinitionPath (Restrict_paths c)
        \<and> TaskDefinitionPath c' = TaskDefinitionPath (Restrict_paths c)"
    if frame: "\<forall>p c0 e. p \<in> set (pluginList d c) \<longrightarrow>
            ServiceDefinitionPath (snd (fst (Setup d p c0 e))) = ServiceDefinitionPath c0
            \<and> TaskDefinitionPath (snd (fst (Setup d p c0 e))) = TaskDefinitionPath c0"
      and ok: "Restrict d c w = (None, c', w')" for c' w'
    using Restrict_field [of d c "\<lambda>c. (ServiceDefinitionPath c, TaskDefinitionPath c)" w c' w']
      frame ok
    by auto
  from service task kept twice whole show ?thesis
    by blast
qed

theorem Restrict_resolves_paths_witness:
  "ServiceDefinitionPath (Restrict_paths
      (zeroConfig\<lparr>ServiceDefinitionPath := ''ecs-service-def.json'',
                  TaskDefinitionPath := ''/srv/ecs-task-def.json'', dir := ''/etc/app''\<rparr>
         :: string Config))
     = ''/etc/app/ecs-service-def.json''
   \<and> filepath_IsAbs ''/etc/app/ecs-service-def.json''
   \<and> TaskDefinitionPath (Restrict_paths
      (zeroConfig\<lparr>ServiceDefinitionPath := ''ecs-service-def.json'',
                  TaskDefinitionPath := ''/srv/ecs-task-def.json'', dir := ''/etc/app''\<rparr>
         :: string Config))
     = ''/srv/ecs-task-def.json''"
proof -
  let ?c = "zeroConfig\<lparr>ServiceDefinitionPath := ''ecs-service-def.json'',
                       TaskDefinitionPath := ''/srv/ecs-task-def.json'', dir := ''/etc/app''\<rparr>
            :: string Config"
  note T = Restrict_resolves_paths [of ?c scenario emptyWorld]
  have fields: "ServiceDefinitionPath ?c = ''ecs-service-def.json''"
      "TaskDefinitionPath ?c = ''/srv/ecs-task-def.json''" "dir ?c = ''/etc/app''"
    by simp_all
  have relative: "ServiceDefinitionPath ?c \<noteq> [] \<and> \<not> filepath_IsAbs (ServiceDefinitionPath ?c)"
    and absolute: "TaskDefinitionPath ?c = [] \<or> filepath_IsAbs (TaskDefinitionPath ?c)"
    and directory: "filepath_IsAbs (dir ?c)"
    unfolding fields by code_simp+
  have join: "filepath_Join [if dir ?c = [] then ''.'' else dir ?c, ServiceDefinitionPath ?c]
      = ''/etc/app/ecs-service-def.json''"
    unfolding fields by code_simp
  have joined: "ServiceDefinitionPath (Restrict_paths ?c)
      = filepath_Join [if dir ?c = [] then ''.'' else dir ?c, ServiceDefinitionPath ?c]"
    using T [THEN conjunct1, rule_format, OF relative] by (rule conjunct1)
  have rooted: "filepath_IsAbs (ServiceDefinitionPath (Restrict_paths ?c))"
    using T [THEN conjunct1, rule_format, OF relative, THEN conjunct2, rule_format, OF directory] .
  have service: "ServiceDefinitionPath (Restrict_paths ?c) = ''/etc/app/ecs-service-def.json''"
    using joined unfolding join .
  have "filepath_IsAbs ''/etc/app/ecs-service-def.json''"
    using rooted unfolding service .
  moreover have "TaskDefinitionPath (Restrict_paths ?c) = ''/srv/ecs-task-def.json''"
    using T [THEN conjunct2, THEN conjunct2, THEN conjunct2, THEN conjunct1, rule_format,
      OF absolute] unfolding fields(2) .
  ultimately show ?thesis
    using service by simp
qed

text \<open>
  The claim as it is written fails where the directory of the configuration file is
  relative: the joined path is relative too.
\<close>

theorem Restrict_relative_directory:
  "fst (Restrict scenario
         (zeroConfig\<lparr>ServiceDefinitionPath := ''ecs-service-def.json'', dir := ''conf''\<rparr>)
         emptyWorld) = None
   \<and> ServiceDefinitionPath (fst (snd (Restrict scenario
         (zeroConfig\<lparr>ServiceDefinitionPath := ''ecs-service-def.json'', dir := ''conf''\<rparr>)
         emptyWorld)))
     = ''conf/ecs-service-def.json''
   \<and> \<not> filepath_IsAbs ''conf/ecs-service-def.json''
   \<and> filepath_Dir ''conf/ecspresso.jsonnet'' = ''conf''
   \<and> map_option ServiceDefinitionPath
        (fst (fst (Load scenario emptyLoader ''conf/ecspresso.jsonnet'' ''2.1.0''
           (emptyWorld\<lparr>environ := [''AWS_REGION'' \<mapsto> ''ap-northeast-1'']\<rparr>))))
     = Some ''conf/ecs-service-def.json''"
  by code_simp

end
